theory Spec2Isabelle
  imports
    Main
    "HOL-Library.Char_ord"
    "HOL-Library.List_Lexorder"
    "HOL-Library.Sublist"
    "HOL-Library.AList"
    "HOL-Library.Multiset"
begin

section \<open>Python strings and dictionaries\<close>

text \<open>
  A Python \<^verbatim>\<open>str\<close> is a \<^typ>\<open>string\<close>. File names, task names and time stamps
  are taken to be ASCII, so that one \<^typ>\<open>char\<close> is one code point. The order on
  strings is the lexicographic one of \<^verbatim>\<open>List_Lexorder\<close> over the code-point order of
  \<^verbatim>\<open>Char_ord\<close>, which is how Python compares two \<^verbatim>\<open>str\<close> values.
\<close>

text \<open>\<^verbatim>\<open>s.find(c)\<close> and \<^verbatim>\<open>s.rfind(c)\<close> for a one-character needle: the index
  of the first (last) occurrence, or \<open>-1\<close>.\<close>

fun find_from :: "string \<Rightarrow> char \<Rightarrow> nat \<Rightarrow> int" where
  "find_from [] c i = - 1"
| "find_from (x # xs) c i = (if x = c then int i else find_from xs c (Suc i))"

fun rfind_from :: "string \<Rightarrow> char \<Rightarrow> nat \<Rightarrow> int \<Rightarrow> int" where
  "rfind_from [] c i found = found"
| "rfind_from (x # xs) c i found = rfind_from xs c (Suc i) (if x = c then int i else found)"

definition py_find :: "string \<Rightarrow> char \<Rightarrow> int" where
  "py_find s c = find_from s c 0"

definition py_rfind :: "string \<Rightarrow> char \<Rightarrow> int" where
  "py_rfind s c = rfind_from s c 0 (- 1)"

text \<open>Slices \<^verbatim>\<open>s[a:b]\<close> and \<^verbatim>\<open>s[a:]\<close>: a negative index counts from the end, and
  every index is clamped to the string. A slice never raises.\<close>

definition py_clamp :: "nat \<Rightarrow> int \<Rightarrow> nat" where
  "py_clamp n i = (if i < 0 then nat (max 0 (int n + i)) else min n (nat i))"

definition py_slice :: "string \<Rightarrow> int \<Rightarrow> int \<Rightarrow> string" where
  "py_slice s a b =
     take (py_clamp (length s) b - py_clamp (length s) a) (drop (py_clamp (length s) a) s)"

definition py_slice_from :: "string \<Rightarrow> int \<Rightarrow> string" where
  "py_slice_from s a = drop (py_clamp (length s) a) s"

text \<open>\<^verbatim>\<open>sub in s\<close>: \<open>sub\<close> occurs in \<open>s\<close> as a contiguous substring.\<close>

fun py_in :: "string \<Rightarrow> string \<Rightarrow> bool" where
  "py_in sub [] = (sub = [])"
| "py_in sub (c # cs) = (prefix sub (c # cs) \<or> py_in sub cs)"

text \<open>\<^verbatim>\<open>s.replace(old, new)\<close> for a non-empty \<open>old\<close> (both call sites pass a
  literal): occurrences are replaced from left to right, without overlap.\<close>

fun py_replace :: "string \<Rightarrow> string \<Rightarrow> string \<Rightarrow> string" where
  "py_replace old new [] = []"
| "py_replace old new (c # cs) =
     (if prefix old (c # cs) then new @ py_replace old new (drop (length old - 1) cs)
      else c # py_replace old new cs)"

text \<open>The character class \<^verbatim>\<open>\w\<close> on ASCII text: letters, digits and the underscore.\<close>

definition is_word_char :: "char \<Rightarrow> bool" where
  "is_word_char c \<longleftrightarrow>
     (CHR ''a'' \<le> c \<and> c \<le> CHR ''z'') \<or> (CHR ''A'' \<le> c \<and> c \<le> CHR ''Z'') \<or>
     (CHR ''0'' \<le> c \<and> c \<le> CHR ''9'') \<or> c = CHR ''_''"

text \<open>\<^verbatim>\<open>re.sub(r"\W", "_", s)\<close> and \<^verbatim>\<open>re.sub(r"[^\w\.]", "_", s)\<close>.\<close>

definition sanitize_task :: "string \<Rightarrow> string" where
  "sanitize_task s = map (\<lambda>c. if is_word_char c then c else CHR ''_'') s"

definition sanitize_date :: "string \<Rightarrow> string" where
  "sanitize_date s = map (\<lambda>c. if is_word_char c \<or> c = CHR ''.'' then c else CHR ''_'') s"

text \<open>\<^verbatim>\<open>os.path.basename\<close> and \<^verbatim>\<open>os.path.join("**", name)\<close> on POSIX paths; the
  joined name is a base name, so it never starts with a slash.\<close>

definition basename :: "string \<Rightarrow> string" where
  "basename p = py_slice_from p (py_rfind p CHR ''/'' + 1)"

definition join_glob :: "string \<Rightarrow> string" where
  "join_glob name = ''**/'' @ name"

text \<open>A Python \<^verbatim>\<open>dict\<close> is an association list with distinct keys in insertion
  order: \<^verbatim>\<open>d.get(k, default)\<close> is \<open>dict_get\<close>, \<^verbatim>\<open>d[k] = v\<close> is
  \<^const>\<open>AList.update\<close> (an existing key keeps its place, a new one goes last).\<close>

definition dict_get :: "('k \<times> 'v) list \<Rightarrow> 'k \<Rightarrow> 'v \<Rightarrow> 'v" where
  "dict_get d k dflt = (case map_of d k of None \<Rightarrow> dflt | Some v \<Rightarrow> v)"

datatype error = ValueError | IndexError

section \<open>SampleSanitizer: \<^verbatim>\<open>sanitize_list\<close>\<close>

text \<open>
  The values \<^verbatim>\<open>sanitize_list\<close> meets: lists, tuples, and leaves. A leaf is a string,
  an integer, \<^verbatim>\<open>None\<close>, a boolean, or any other object, which is kept as the text that
  \<^verbatim>\<open>str\<close> gives for it.
\<close>

datatype leaf =
    PyStr string
  | PyInt int
  | PyNone
  | PyBool bool
  | PyOther string

datatype pyobj =
    PyList "pyobj list"
  | PyTuple "pyobj list"
  | Leaf leaf

text \<open>\<^verbatim>\<open>str\<close> of a natural number and of an integer, in decimal.\<close>

fun str_nat :: "nat \<Rightarrow> string" where
  "str_nat n =
     (if n < 10 then [''0123456789'' ! n]
      else str_nat (n div 10) @ [''0123456789'' ! (n mod 10)])"

declare str_nat.simps [simp del]

definition str_int :: "int \<Rightarrow> string" where
  "str_int i = (if i < 0 then CHR ''-'' # str_nat (nat (- i)) else str_nat (nat i))"

fun py_str :: "leaf \<Rightarrow> string" where
  "py_str (PyStr s) = s"
| "py_str (PyInt i) = str_int i"
| "py_str PyNone = ''None''"
| "py_str (PyBool b) = (if b then ''True'' else ''False'')"
| "py_str (PyOther r) = r"

text \<open>
  \<^verbatim>\<open>
  def sanitize_list(self, sub):
      if isinstance(sub, list):
          return [self.sanitize_list(item) for item in sub]
      if isinstance(sub, tuple):
          return tuple(self.sanitize_list(item) for item in sub)
      else:
          return str(sub)
  \<close>
\<close>

fun sanitize_list :: "pyobj \<Rightarrow> pyobj" where
  "sanitize_list (PyList sub) = PyList (map sanitize_list sub)"
| "sanitize_list (PyTuple sub) = PyTuple (map sanitize_list sub)"
| "sanitize_list (Leaf sub) = Leaf (PyStr (py_str sub))"

text \<open>The shape of a value (its containers, with every leaf erased) and its leaves from
  left to right.\<close>

datatype shape = SList "shape list" | STuple "shape list" | SLeaf

fun shape_of :: "pyobj \<Rightarrow> shape" where
  "shape_of (PyList xs) = SList (map shape_of xs)"
| "shape_of (PyTuple xs) = STuple (map shape_of xs)"
| "shape_of (Leaf v) = SLeaf"

fun leaves :: "pyobj \<Rightarrow> leaf list" where
  "leaves (PyList xs) = concat (map leaves xs)"
| "leaves (PyTuple xs) = concat (map leaves xs)"
| "leaves (Leaf v) = [v]"

section \<open>RunHashComputer: the task hashes of \<^verbatim>\<open>save_results_aggregated\<close>\<close>

record sample =
  doc_hash :: string
  prompt_hash :: string
  target_hash :: string

text \<open>
  \<^verbatim>\<open>
  sample_hashes = [s["doc_hash"] + s["prompt_hash"] + s["target_hash"] for s in task_samples]
  task_hashes[task_name] = hash_string("".join(sample_hashes))
  \<close>
  \<^verbatim>\<open>hash_string\<close> comes from \<^verbatim>\<open>lm_eval.utils\<close> and is a parameter here.
\<close>

definition sample_hashes :: "sample list \<Rightarrow> string list" where
  "sample_hashes task_samples = map (\<lambda>s. doc_hash s @ prompt_hash s @ target_hash s) task_samples"

definition task_hash :: "(string \<Rightarrow> string) \<Rightarrow> sample list \<Rightarrow> string" where
  "task_hash hash_string task_samples = hash_string (concat (sample_hashes task_samples))"

definition task_hashes ::
  "(string \<Rightarrow> string) \<Rightarrow> (string \<times> sample list) list \<Rightarrow> (string \<times> string) list" where
  "task_hashes hash_string samples =
     fold (\<lambda>(task_name, task_samples) d. AList.update task_name (task_hash hash_string task_samples) d)
       samples []"

text \<open>Hash strings of one width \<open>n\<close>, as the hexadecimal digests of one hash
  function are.\<close>

definition fixed_width :: "nat \<Rightarrow> sample \<Rightarrow> bool" where
  "fixed_width n s \<longleftrightarrow>
     length (doc_hash s) = n \<and> length (prompt_hash s) = n \<and> length (target_hash s) = n"

section \<open>FilenameParser\<close>

text \<open>
  \<^verbatim>\<open>
  def get_file_task_name(filename: str) -> str:
      return filename[filename.find("_") + 1 : filename.rfind("_")]

  def get_file_datetime(filename: str) -> str:
      return filename[filename.rfind("_") + 1 :].replace(".json", "")
  \<close>
\<close>

definition get_file_task_name :: "string \<Rightarrow> string" where
  "get_file_task_name filename =
     py_slice filename (py_find filename CHR ''_'' + 1) (py_rfind filename CHR ''_'')"

definition get_file_datetime :: "string \<Rightarrow> string" where
  "get_file_datetime filename =
     py_replace ''.json'' [] (py_slice_from filename (py_rfind filename CHR ''_'' + 1))"

section \<open>CatalogBuilder: the first part of \<^verbatim>\<open>recreate_metadata_card\<close>\<close>

text \<open>
  \<^verbatim>\<open>
  results_files = [f for f in files_in_repo if "/results_" in f and ".json" in f]
  sample_files = [f for f in files_in_repo if "/samples_" in f and ".json" in f]
  \<close>
\<close>

definition results_files :: "string list \<Rightarrow> string list" where
  "results_files files_in_repo =
     filter (\<lambda>f. py_in ''/results_'' f \<and> py_in ''.json'' f) files_in_repo"

definition sample_files :: "string list \<Rightarrow> string list" where
  "sample_files files_in_repo =
     filter (\<lambda>f. py_in ''/samples_'' f \<and> py_in ''.json'' f) files_in_repo"

text \<open>\<^verbatim>\<open>datetime.min.isoformat()\<close>, the default of the \<^verbatim>\<open>defaultdict\<close>.\<close>

definition datetime_min :: string where
  "datetime_min = ''0001-01-01T00:00:00''"

text \<open>
  \<^verbatim>\<open>
  latest_task_results_datetime = defaultdict(lambda: datetime.min.isoformat())
  for filename in sample_files:
      filename = os.path.basename(filename)
      task_name = get_file_task_name(filename)
      results_datetime = get_file_datetime(filename)
      latest_task_results_datetime[task_name] = (
          max(latest_task_results_datetime[task_name], results_datetime)
      )
  \<close>
\<close>

definition latest_step :: "string \<Rightarrow> (string \<times> string) list \<Rightarrow> (string \<times> string) list" where
  "latest_step filename latest =
     (let filename = basename filename;
          task_name = get_file_task_name filename;
          results_datetime = get_file_datetime filename
      in AList.update task_name (max (dict_get latest task_name datetime_min) results_datetime)
           latest)"

definition latest_task_results_datetime :: "string list \<Rightarrow> (string \<times> string) list" where
  "latest_task_results_datetime sfiles = fold latest_step sfiles []"

text \<open>\<^verbatim>\<open>max(latest_task_results_datetime.values())\<close>: \<^verbatim>\<open>max\<close> of an empty
  sequence raises \<^verbatim>\<open>ValueError\<close>.\<close>

definition max_latest_task_results_datetime :: "(string \<times> string) list \<Rightarrow> error + string" where
  "max_latest_task_results_datetime latest =
     (case map snd latest of [] \<Rightarrow> Inl ValueError | v # vs \<Rightarrow> Inr (fold max vs v))"

text \<open>
  An entry \<^verbatim>\<open>{"split": ..., "path": [...]}\<close> of a \<^verbatim>\<open>"data_files"\<close> list. A
  configuration \<^verbatim>\<open>{"data_files": [...]}\<close> is its list of entries, and
  \<^verbatim>\<open>MetadataConfigs\<close> is a dictionary from configuration names to configurations.
\<close>

record data_file =
  split :: string
  path :: "string list"

type_synonym config = "data_file list"

type_synonym metadata_configs = "(string \<times> config) list"

text \<open>Appending one entry to the \<^verbatim>\<open>"data_files"\<close> of configuration \<open>k\<close>, which
  is created with an empty list when \<^verbatim>\<open>card_metadata.get(k, {"data_files": []})\<close> does
  not find it.\<close>

definition append_data_file :: "string \<Rightarrow> data_file \<Rightarrow> metadata_configs \<Rightarrow> metadata_configs" where
  "append_data_file k df card_metadata =
     AList.update k (dict_get card_metadata k [] @ [df]) card_metadata"

text \<open>
  \<^verbatim>\<open>
  for filename in results_files:
      results_filename = os.path.basename(filename)
      eval_date = get_file_datetime(results_filename)
      eval_date_sanitized = re.sub(r"[^\w\.]", "_", eval_date)
      results_filename = os.path.join("**", results_filename)
      sanitized_last_eval_date_results = re.sub(r"[^\w\.]", "_", max_latest_task_results_datetime)
      current_results = card_metadata.get("results", {"data_files": []})
      current_results["data_files"].append({"split": eval_date_sanitized, "path": [results_filename]})
      card_metadata["results"] = current_results
      if eval_date_sanitized == sanitized_last_eval_date_results:
          card_metadata["results"]["data_files"].append({"split": "latest", "path": [results_filename]})
  \<close>
\<close>

definition add_results_file :: "string \<Rightarrow> string \<Rightarrow> metadata_configs \<Rightarrow> metadata_configs" where
  "add_results_file max_latest filename card_metadata =
     (let results_filename = basename filename;
          eval_date = get_file_datetime results_filename;
          eval_date_sanitized = sanitize_date eval_date;
          results_filename = join_glob results_filename;
          sanitized_last_eval_date_results = sanitize_date max_latest;
          card_metadata = append_data_file ''results''
            \<lparr>split = eval_date_sanitized, path = [results_filename]\<rparr> card_metadata
      in if eval_date_sanitized = sanitized_last_eval_date_results
         then append_data_file ''results'' \<lparr>split = ''latest'', path = [results_filename]\<rparr>
                card_metadata
         else card_metadata)"

definition SPECIAL_TASKS :: "string list" where
  "SPECIAL_TASKS = [''mmlu_'', ''gpqa_'', ''math_'']"

text \<open>
  \<^verbatim>\<open>
  former_split = [(i, entry) for i, entry in enumerate(former_entry["data_files"])
                  if entry.get("split", None) == eval_date_sanitized]
  if len(former_split) == 0:
      former_entry["data_files"].append({"split": eval_date_sanitized, "path": [results_filename]})
  else:
      split_index, _ = former_split[0]
      former_entry["data_files"][split_index]["path"].append(results_filename)
  \<close>
  The same lines are written a second time for the split \<^verbatim>\<open>"latest"\<close>.
\<close>

definition upsert_split :: "string \<Rightarrow> string \<Rightarrow> config \<Rightarrow> config" where
  "upsert_split name results_filename data_files =
     (case filter (\<lambda>i. split (data_files ! i) = name) [0..<length data_files] of
        [] \<Rightarrow> data_files @ [\<lparr>split = name, path = [results_filename]\<rparr>]
      | split_index # _ \<Rightarrow>
          data_files[split_index :=
            (data_files ! split_index)
              \<lparr>path := path (data_files ! split_index) @ [results_filename]\<rparr>])"

text \<open>
  \<^verbatim>\<open>
  for special_task in SPECIAL_TASKS:
      if special_task in task_name_sanitized:
          former_entry = card_metadata.get(special_task, {"data_files": []})
          ... the split of eval_date_sanitized, as above ...
          if eval_date_sanitized == sanitized_last_eval_date_results:
              ... the split "latest", as above ...
          card_metadata[special_task] = former_entry
  \<close>
  \<open>composite_update\<close> is what the body does to \<^verbatim>\<open>former_entry["data_files"]\<close>.
\<close>

definition composite_update :: "string \<Rightarrow> string \<Rightarrow> string \<Rightarrow> config \<Rightarrow> config" where
  "composite_update eval_date_sanitized sanitized_last_eval_date_results results_filename
       data_files =
     (let data_files = upsert_split eval_date_sanitized results_filename data_files
      in if eval_date_sanitized = sanitized_last_eval_date_results
         then upsert_split ''latest'' results_filename data_files
         else data_files)"

definition special_step ::
  "string \<Rightarrow> string \<Rightarrow> string \<Rightarrow> string \<Rightarrow> string \<Rightarrow> metadata_configs \<Rightarrow> metadata_configs" where
  "special_step task_name_sanitized eval_date_sanitized sanitized_last_eval_date_results
       results_filename special_task card_metadata =
     (if py_in special_task task_name_sanitized then
        (let former_entry = dict_get card_metadata special_task [];
             former_entry =
               composite_update eval_date_sanitized sanitized_last_eval_date_results
                 results_filename former_entry
         in AList.update special_task former_entry card_metadata)
      else card_metadata)"

text \<open>
  \<^verbatim>\<open>
  for filename in sample_files:
      filename = os.path.basename(filename)
      task_name = get_file_task_name(filename)
      eval_date = get_file_datetime(filename)
      task_name_sanitized = re.sub(r"\W", "_", task_name)
      eval_date_sanitized = re.sub(r"[^\w\.]", "_", eval_date)
      results_filename = os.path.join("**", os.path.basename(filename))
      sanitized_last_eval_date_results = re.sub(
          r"[^\w\.]", "_", latest_task_results_datetime[task_name])
      current_details_for_task = card_metadata.get(task_name_sanitized, {"data_files": []})
      current_details_for_task["data_files"].append(
          {"split": eval_date_sanitized, "path": [results_filename]})
      card_metadata[task_name_sanitized] = current_details_for_task
      if eval_date_sanitized == sanitized_last_eval_date_results:
          card_metadata[task_name_sanitized]["data_files"].append(
              {"split": "latest", "path": [results_filename]})
      for special_task in SPECIAL_TASKS: ...
  \<close>
\<close>

definition add_sample_file ::
  "(string \<times> string) list \<Rightarrow> string \<Rightarrow> metadata_configs \<Rightarrow> metadata_configs" where
  "add_sample_file latest filename card_metadata =
     (let filename = basename filename;
          task_name = get_file_task_name filename;
          eval_date = get_file_datetime filename;
          task_name_sanitized = sanitize_task task_name;
          eval_date_sanitized = sanitize_date eval_date;
          results_filename = join_glob (basename filename);
          sanitized_last_eval_date_results =
            sanitize_date (dict_get latest task_name datetime_min);
          card_metadata = append_data_file task_name_sanitized
            \<lparr>split = eval_date_sanitized, path = [results_filename]\<rparr> card_metadata;
          card_metadata =
            (if eval_date_sanitized = sanitized_last_eval_date_results
             then append_data_file task_name_sanitized
                    \<lparr>split = ''latest'', path = [results_filename]\<rparr> card_metadata
             else card_metadata)
      in fold (special_step task_name_sanitized eval_date_sanitized
                 sanitized_last_eval_date_results results_filename)
           SPECIAL_TASKS card_metadata)"

text \<open>The two loops, started from the fresh \<^verbatim>\<open>card_metadata = MetadataConfigs()\<close>.\<close>

definition build_card_metadata ::
  "string \<Rightarrow> (string \<times> string) list \<Rightarrow> string list \<Rightarrow> string list \<Rightarrow> metadata_configs" where
  "build_card_metadata max_latest latest rfiles sfiles =
     fold (add_sample_file latest) sfiles (fold (add_results_file max_latest) rfiles [])"

text \<open>The method up to the end of the second loop: the global latest time stamp and the
  configurations, or the \<^verbatim>\<open>ValueError\<close> of \<^verbatim>\<open>max\<close>.\<close>

definition catalog_builder :: "string list \<Rightarrow> error + string \<times> metadata_configs" where
  "catalog_builder files_in_repo =
     (let rfiles = results_files files_in_repo;
          sfiles = sample_files files_in_repo;
          latest = latest_task_results_datetime sfiles
      in case max_latest_task_results_datetime latest of
           Inl e \<Rightarrow> Inl e
         | Inr max_latest \<Rightarrow>
             Inr (max_latest, build_card_metadata max_latest latest rfiles sfiles))"

text \<open>
  \<^verbatim>\<open>
  last_results_file = [
      f for f in results_files if max_latest_task_results_datetime.replace(":", "-") in f
  ][0]
  \<close>
  Indexing an empty list raises \<^verbatim>\<open>IndexError\<close>.
\<close>

definition last_results_file :: "string \<Rightarrow> string list \<Rightarrow> error + string" where
  "last_results_file max_latest rfiles =
     (case filter (\<lambda>f. py_in (py_replace '':'' ''-'' max_latest) f) rfiles of
        [] \<Rightarrow> Inl IndexError
      | f # _ \<Rightarrow> Inr f)"

section \<open>CardAssembler: the second part of \<^verbatim>\<open>recreate_metadata_card\<close>\<close>

text \<open>The fields of the tracker that the method reads. Nothing in the method assigns to
  one of them.\<close>

record GeneralConfigTracker =
  model_source :: string
  model_name :: string

record EvaluationTracker =
  general_config_tracker :: GeneralConfigTracker
  hub_results_repo :: string
  hub_results_repo_private :: string
  public_repo :: bool

definition repo_id :: "EvaluationTracker \<Rightarrow> string" where
  "repo_id self = (if public_repo self then hub_results_repo self else hub_results_repo_private self)"

text \<open>
  The summary. In the source, the statement
  \<^verbatim>\<open>dataset_summary += f"{org_string}.\n\n"\<close> ends at its line; the five string
  literals on the lines after it (the number of configurations, the number of runs, ...)
  are expression statements of their own, whose values are dropped. The same holds for
  the four lines after \<^verbatim>\<open>dataset_summary += "## Latest results\n\n"\<close>, the last of
  which holds \<^verbatim>\<open>results_string\<close>. So \<open>n_configs\<close>, \<open>n_runs\<close>,
  \<open>max_latest\<close>, \<open>last_results_file_path\<close> and \<open>results_string\<close> are
  computed and not used.
  \<^verbatim>\<open>
  dataset_summary = "Dataset automatically created during the evaluation run of model "
  if self.general_config_tracker.model_source == "hf":
      dataset_summary += f"[{model_name}](https://huggingface.co/{model_name})"
  else:
      dataset_summary += f"{model_name}"
  dataset_summary += f"{org_string}.\n\n"
  f"The dataset is composed of {len(card_metadata)-1} configuration(s), ..."
  f"The dataset has been created from {len(results_files)} run(s). ..."
  ...
  if self.general_config_tracker.model_source == "hf":
      dataset_summary += f'```python\nfrom datasets import load_dataset\ndata = load_dataset(\n\t"{repo_id}",\n\t"{task_name_sanitized}",\n\tsplit="latest"\n)\n```\n\n'
  dataset_summary += "## Latest results\n\n"
  f'These are the [latest results from run {max_latest_task_results_datetime}](...) '
  ...
  (f"```python\n{results_string}\n```",)
  \<close>
\<close>

definition nl :: string where "nl = [CHR 0x0A]"
definition tab :: string where "tab = [CHR 0x09]"
definition dq :: string where "dq = [CHR 0x22]"

definition org_string :: string where
  "org_string = []"

definition dataset_summary ::
  "GeneralConfigTracker \<Rightarrow> string \<Rightarrow> string \<Rightarrow> int \<Rightarrow> nat \<Rightarrow> string \<Rightarrow> string \<Rightarrow> string \<Rightarrow> string" where
  "dataset_summary tracker repo task_name_sanitized n_configs n_runs max_latest
       last_results_file_path results_string =
     (let summary = ''Dataset automatically created during the evaluation run of model '';
          summary =
            (if model_source tracker = ''hf''
             then summary @ ''['' @ model_name tracker @ ''](https://huggingface.co/''
                    @ model_name tracker @ '')''
             else summary @ model_name tracker);
          summary = summary @ org_string @ ''.'' @ nl @ nl;
          summary =
            (if model_source tracker = ''hf''
             then summary @ ''```python'' @ nl @ ''from datasets import load_dataset'' @ nl
                    @ ''data = load_dataset('' @ nl @ tab @ dq @ repo @ dq @ '','' @ nl
                    @ tab @ dq @ task_name_sanitized @ dq @ '','' @ nl
                    @ tab @ ''split='' @ dq @ ''latest'' @ dq @ nl @ '')'' @ nl @ ''```'' @ nl @ nl
             else summary)
      in summary @ ''## Latest results'' @ nl @ nl)"

text \<open>What is handed to \<^verbatim>\<open>DatasetCard.from_template\<close>: the configurations, and the
  fields of \<^verbatim>\<open>DatasetCardData\<close>.\<close>

record dataset_card =
  card_configs :: metadata_configs
  card_summary :: string
  card_repo_url :: string
  card_pretty_name :: string

text \<open>
  The whole method, from the listing that \<^verbatim>\<open>list_repo_files\<close> returns. The content of
  the latest results file, which \<^verbatim>\<open>load_dataset\<close> fetches and \<^verbatim>\<open>json.dumps\<close>
  renders, is the parameter \<open>results_string\<close>, a function of the URL of the file;
  \<^verbatim>\<open>hf_hub_url\<close> is the parameter \<open>hub_url\<close>. The result is the card and the
  tracker as the method leaves it, or the exception that ends the method.
  \<^verbatim>\<open>task_name_sanitized\<close> in the summary is the variable of the last round of the
  loop over the sample files. The calls into the libraries (\<^verbatim>\<open>load_dataset\<close>,
  \<^verbatim>\<open>to_dataset_card_data\<close>, \<^verbatim>\<open>from_template\<close>, \<^verbatim>\<open>push_to_hub\<close>) are taken to
  return; an exception that one of them raises is not in the model.
\<close>

definition recreate_metadata_card ::
  "(string \<Rightarrow> string) \<Rightarrow> (string \<Rightarrow> string) \<Rightarrow> EvaluationTracker \<Rightarrow> string list
     \<Rightarrow> (error + dataset_card) \<times> EvaluationTracker" where
  "recreate_metadata_card hub_url results_string self files_in_repo =
     (case catalog_builder files_in_repo of
        Inl e \<Rightarrow> (Inl e, self)
      | Inr (max_latest, metadata) \<Rightarrow>
          (case last_results_file max_latest (results_files files_in_repo) of
             Inl e \<Rightarrow> (Inl e, self)
           | Inr last_file \<Rightarrow>
               (let last_results_file_path = hub_url last_file;
                    task_name_sanitized =
                      sanitize_task
                        (get_file_task_name (basename (last (sample_files files_in_repo))));
                    tracker = general_config_tracker self
                in (Inr \<lparr>card_configs = metadata,
                         card_summary =
                           dataset_summary tracker (repo_id self) task_name_sanitized
                             (int (length metadata) - 1) (length (results_files files_in_repo))
                             max_latest last_results_file_path
                             (results_string last_results_file_path),
                         card_repo_url = ''https://huggingface.co/'' @ model_name tracker,
                         card_pretty_name = ''Evaluation run of '' @ model_name tracker\<rparr>,
                    self))))"

section \<open>Notions used to state the properties\<close>

text \<open>What the two loops read off one listed file: the task, the time stamp, the name of
  its configuration, the name of its split, and the path that is stored.\<close>

definition file_task :: "string \<Rightarrow> string" where
  "file_task f = get_file_task_name (basename f)"

definition file_date :: "string \<Rightarrow> string" where
  "file_date f = get_file_datetime (basename f)"

definition file_config :: "string \<Rightarrow> string" where
  "file_config f = sanitize_task (file_task f)"

definition file_split :: "string \<Rightarrow> string" where
  "file_split f = sanitize_date (file_date f)"

definition file_path :: "string \<Rightarrow> string" where
  "file_path f = join_glob (basename f)"

text \<open>\<^verbatim>\<open>latest_task_results_datetime[task_name]\<close> after the first loop, and the time
  stamps of the sample files of one task, in the order of the listing.\<close>

definition task_latest :: "string list \<Rightarrow> string \<Rightarrow> string" where
  "task_latest files_in_repo task_name =
     dict_get (latest_task_results_datetime (sample_files files_in_repo)) task_name datetime_min"

definition task_dates :: "string list \<Rightarrow> string \<Rightarrow> string list" where
  "task_dates files_in_repo task_name =
     map file_date (filter (\<lambda>f. file_task f = task_name) (sample_files files_in_repo))"

text \<open>The content of a configuration as a relation: the pairs of a split name and a
  path listed under a split of that name.\<close>

definition members :: "config \<Rightarrow> (string \<times> string) set" where
  "members data_files = set (concat (map (\<lambda>d. map (Pair (split d)) (path d)) data_files))"

text \<open>A sample file goes into the configuration of its task and into the configuration
  of every special task whose name occurs in the sanitized task name. It is marked as
  latest when its sanitized time stamp is the sanitized latest time stamp of its task.\<close>

definition in_config :: "string \<Rightarrow> string \<Rightarrow> bool" where
  "in_config c f \<longleftrightarrow> c = file_config f \<or> (c \<in> set SPECIAL_TASKS \<and> py_in c (file_config f))"

definition is_latest_sample :: "(string \<times> string) list \<Rightarrow> string \<Rightarrow> bool" where
  "is_latest_sample latest f \<longleftrightarrow>
     file_split f = sanitize_date (dict_get latest (file_task f) datetime_min)"

definition sample_pairs ::
  "(string \<times> string) list \<Rightarrow> string \<Rightarrow> string \<Rightarrow> (string \<times> string) set" where
  "sample_pairs latest c f =
     (if in_config c f
      then {(file_split f, file_path f)} \<union>
           (if is_latest_sample latest f then {(''latest'', file_path f)} else {})
      else {})"

definition results_pairs :: "string \<Rightarrow> string \<Rightarrow> string \<Rightarrow> (string \<times> string) set" where
  "results_pairs m c f =
     (if c = ''results''
      then {(file_split f, file_path f)} \<union>
           (if file_split f = sanitize_date m then {(''latest'', file_path f)} else {})
      else {})"

text \<open>What one round of each loop does to the single configuration \<open>c\<close>.\<close>

definition config_after_results :: "string \<Rightarrow> string \<Rightarrow> string \<Rightarrow> config \<Rightarrow> config" where
  "config_after_results max_latest c f data_files =
     (if c = ''results''
      then data_files @ [\<lparr>split = file_split f, path = [file_path f]\<rparr>]
             @ (if file_split f = sanitize_date max_latest
                then [\<lparr>split = ''latest'', path = [file_path f]\<rparr>] else [])
      else data_files)"

definition config_after_sample ::
  "(string \<times> string) list \<Rightarrow> string \<Rightarrow> string \<Rightarrow> config \<Rightarrow> config" where
  "config_after_sample latest c f data_files =
     (let sl = sanitize_date (dict_get latest (file_task f) datetime_min);
          data_files =
            (if c = file_config f
             then data_files @ [\<lparr>split = file_split f, path = [file_path f]\<rparr>]
                    @ (if file_split f = sl
                       then [\<lparr>split = ''latest'', path = [file_path f]\<rparr>] else [])
             else data_files)
      in if c \<in> set SPECIAL_TASKS \<and> py_in c (file_config f)
         then composite_update (file_split f) sl (file_path f) data_files
         else data_files)"

text \<open>Names made of word characters, split names made of word characters and dots, and
  a configuration in which no two splits have one name and no split lists a path twice.\<close>

definition word_name :: "string \<Rightarrow> bool" where
  "word_name s \<longleftrightarrow> list_all is_word_char s"

definition split_name_ok :: "string \<Rightarrow> bool" where
  "split_name_ok s \<longleftrightarrow> list_all (\<lambda>c. is_word_char c \<or> c = CHR ''.'') s"

definition unique_splits :: "config \<Rightarrow> bool" where
  "unique_splits data_files \<longleftrightarrow>
     distinct (map split data_files) \<and> list_all (\<lambda>d. distinct (path d)) data_files"

text \<open>
  A listing without collisions: no two sample files have the same configuration and
  split, sample files of one configuration are of one task, no two results files have
  the same split, no time stamp is sanitized to the word \<^verbatim>\<open>latest\<close>, and no task is
  sanitized to \<^verbatim>\<open>results\<close> or to the name of a special task.
\<close>

definition collision_free :: "string list \<Rightarrow> bool" where
  "collision_free files_in_repo \<longleftrightarrow>
     (let sfiles = sample_files files_in_repo; rfiles = results_files files_in_repo
      in distinct (map (\<lambda>f. (file_config f, file_split f)) sfiles) \<and>
         (\<forall>f\<in>set sfiles. \<forall>g\<in>set sfiles.
            file_config f = file_config g \<longrightarrow> file_task f = file_task g) \<and>
         distinct (map file_split rfiles) \<and>
         (\<forall>f\<in>set (sfiles @ rfiles). file_split f \<noteq> ''latest'') \<and>
         (\<forall>f\<in>set sfiles. file_config f \<noteq> ''results'' \<and> file_config f \<notin> set SPECIAL_TASKS))"

section \<open>Strings, dictionaries and splits\<close>

lemma rfind_from_append:
  "rfind_from (xs @ ys) c i found = rfind_from ys c (i + length xs) (rfind_from xs c i found)"
  by (induction xs arbitrary: i found) simp_all

lemma rfind_from_notin: "c \<notin> set s \<Longrightarrow> rfind_from s c i found = found"
  by (induction s arbitrary: i) auto

lemma py_rfind_last: "c \<notin> set ys \<Longrightarrow> py_rfind (xs @ c # ys) c = int (length xs)"
  by (simp add: py_rfind_def rfind_from_append rfind_from_notin)

lemma basename_no_slash: "CHR ''/'' \<notin> set p \<Longrightarrow> basename p = p"
  by (simp add: basename_def py_rfind_def rfind_from_notin py_slice_from_def py_clamp_def)

lemma basename_last_slash: "CHR ''/'' \<notin> set ys \<Longrightarrow> basename (xs @ CHR ''/'' # ys) = ys"
proof -
  have "nat (int (length xs) + 1) = Suc (length xs)" by arith
  then show "CHR ''/'' \<notin> set ys \<Longrightarrow> basename (xs @ CHR ''/'' # ys) = ys"
    by (simp add: basename_def py_rfind_last py_slice_from_def py_clamp_def)
qed

lemma basename_idem: "basename (basename p) = basename p"
proof (cases "CHR ''/'' \<in> set p")
  case True
  then obtain xs ys where "p = xs @ CHR ''/'' # ys" "CHR ''/'' \<notin> set ys"
    by (meson split_list_last)
  then show ?thesis by (simp add: basename_last_slash basename_no_slash)
next
  case False
  then show ?thesis by (simp add: basename_no_slash)
qed

lemma dict_get_update:
  "dict_get (AList.update k v d) c dflt = (if c = k then v else dict_get d c dflt)"
  by (simp add: dict_get_def update_conv')

lemma dict_get_append_data_file:
  "dict_get (append_data_file k df cm) c [] =
     (if c = k then dict_get cm k [] @ [df] else dict_get cm c [])"
  by (simp add: append_data_file_def dict_get_update)

lemma distinct_keys_append_data_file:
  "distinct (map fst cm) \<Longrightarrow> distinct (map fst (append_data_file k df cm))"
  by (simp add: append_data_file_def distinct_update)

lemma keys_append_data_file:
  "fst ` set (append_data_file k df cm) = insert k (fst ` set cm)"
  by (simp add: append_data_file_def dom_update)

lemma filter_upt_Cons:
  "filter (\<lambda>i. P ((d # ds) ! i)) [0..<Suc (length ds)] =
     (if P d then [0] else []) @ map Suc (filter (\<lambda>i. P (ds ! i)) [0..<length ds])"
proof -
  have "[0..<Suc (length ds)] = 0 # map Suc [0..<length ds]"
    by (simp add: upt_conv_Cons map_Suc_upt del: upt_Suc)
  then show ?thesis by (simp add: filter_map comp_def del: upt_Suc)
qed

lemma upsert_split_Nil [simp]:
  "upsert_split name p [] = [\<lparr>split = name, path = [p]\<rparr>]"
  by (simp add: upsert_split_def)

lemma upsert_split_Cons [simp]:
  "upsert_split name p (d # ds) =
     (if split d = name then d\<lparr>path := path d @ [p]\<rparr> # ds else d # upsert_split name p ds)"
proof -
  have "filter (\<lambda>i. split ((d # ds) ! i) = name) [0..<length (d # ds)] =
     (if split d = name then [0] else []) @ map Suc (filter (\<lambda>i. split (ds ! i) = name) [0..<length ds])"
    using filter_upt_Cons [of "\<lambda>x. split x = name" d ds] by simp
  then show ?thesis
    by (simp add: upsert_split_def split: list.splits del: upt_Suc)
qed

lemma split_names_upsert:
  "map split (upsert_split name p dfs) =
     map split dfs @ (if name \<in> set (map split dfs) then [] else [name])"
  by (induction dfs) auto

lemma members_append [simp]: "members (xs @ ys) = members xs \<union> members ys"
  by (simp add: members_def)

lemma members_Cons [simp]: "members (d # ds) = Pair (split d) ` set (path d) \<union> members ds"
  by (simp add: members_def)

lemma members_Nil [simp]: "members [] = {}"
  by (simp add: members_def)

lemma members_upsert [simp]:
  "members (upsert_split name p dfs) = insert (name, p) (members dfs)"
  by (induction dfs) auto

lemma split_names_composite:
  "map split (composite_update eds sl rf dfs) =
     map split dfs @ (if eds \<in> set (map split dfs) then [] else [eds])
       @ (if eds = sl \<and> ''latest'' \<notin> set (map split dfs) \<and> eds \<noteq> ''latest'' then [''latest''] else [])"
  by (auto simp: composite_update_def Let_def split_names_upsert)

lemma members_composite:
  "members (composite_update eds sl rf dfs) =
     members dfs \<union> {(eds, rf)} \<union> (if eds = sl then {(''latest'', rf)} else {})"
  by (auto simp: composite_update_def Let_def)

lemma distinct_split_names_upsert:
  "distinct (map split dfs) \<Longrightarrow> distinct (map split (upsert_split name p dfs))"
  by (simp add: split_names_upsert)

lemma distinct_split_names_composite:
  "distinct (map split dfs) \<Longrightarrow> distinct (map split (composite_update eds sl rf dfs))"
  by (simp add: composite_update_def Let_def distinct_split_names_upsert)

lemma dict_get_special_step:
  "dict_get (special_step tns eds sl rf st cm) c [] =
     (if c = st \<and> py_in st tns then composite_update eds sl rf (dict_get cm c [])
      else dict_get cm c [])"
  by (simp add: special_step_def Let_def dict_get_update)

lemma keys_special_step:
  "fst ` set (special_step tns eds sl rf st cm) =
     (if py_in st tns then insert st (fst ` set cm) else fst ` set cm)"
  by (simp add: special_step_def Let_def dom_update)

lemma distinct_keys_special_step:
  "distinct (map fst cm) \<Longrightarrow> distinct (map fst (special_step tns eds sl rf st cm))"
  by (simp add: special_step_def Let_def distinct_update)

lemma dict_get_add_results_file:
  "dict_get (add_results_file m f cm) c [] = config_after_results m c f (dict_get cm c [])"
  by (simp add: add_results_file_def config_after_results_def Let_def dict_get_append_data_file
      file_split_def file_date_def file_path_def)

lemma dict_get_fold_special:
  "distinct sts \<Longrightarrow>
   dict_get (fold (special_step tns eds sl rf) sts cm) c [] =
     (if c \<in> set sts \<and> py_in c tns then composite_update eds sl rf (dict_get cm c [])
      else dict_get cm c [])"
  by (induction sts arbitrary: cm) (auto simp: dict_get_special_step)

lemma distinct_SPECIAL_TASKS: "distinct SPECIAL_TASKS"
  by (simp add: SPECIAL_TASKS_def)

lemma dict_get_add_sample_file:
  "dict_get (add_sample_file latest f cm) c [] = config_after_sample latest c f (dict_get cm c [])"
  by (simp add: add_sample_file_def config_after_sample_def Let_def dict_get_append_data_file
      dict_get_fold_special [OF distinct_SPECIAL_TASKS] basename_idem
      file_split_def file_date_def file_path_def file_config_def file_task_def)

lemma dict_get_fold_results:
  "dict_get (fold (add_results_file m) fs cm) c [] =
     fold (config_after_results m c) fs (dict_get cm c [])"
  by (induction fs arbitrary: cm) (simp_all add: dict_get_add_results_file)

lemma dict_get_fold_samples:
  "dict_get (fold (add_sample_file latest) fs cm) c [] =
     fold (config_after_sample latest c) fs (dict_get cm c [])"
  by (induction fs arbitrary: cm) (simp_all add: dict_get_add_sample_file)

lemma dict_get_Nil [simp]: "dict_get [] c dflt = dflt"
  by (simp add: dict_get_def)

lemma dict_get_build:
  "dict_get (build_card_metadata m latest rfiles sfiles) c [] =
     fold (config_after_sample latest c) sfiles (fold (config_after_results m c) rfiles [])"
  by (simp add: build_card_metadata_def dict_get_fold_samples dict_get_fold_results)

lemma members_config_after_sample:
  "members (config_after_sample latest c f dfs) = members dfs \<union> sample_pairs latest c f"
  by (auto simp: config_after_sample_def sample_pairs_def in_config_def is_latest_sample_def
      Let_def members_composite)

lemma members_config_after_results:
  "members (config_after_results m c f dfs) = members dfs \<union> results_pairs m c f"
  by (auto simp: config_after_results_def results_pairs_def)

lemma members_fold_samples:
  "members (fold (config_after_sample latest c) fs dfs) =
     members dfs \<union> (\<Union>f\<in>set fs. sample_pairs latest c f)"
  by (induction fs arbitrary: dfs) (auto simp: members_config_after_sample)

lemma members_fold_results:
  "members (fold (config_after_results m c) fs dfs) =
     members dfs \<union> (\<Union>f\<in>set fs. results_pairs m c f)"
  by (induction fs arbitrary: dfs) (auto simp: members_config_after_results)

lemma members_build:
  "members (dict_get (build_card_metadata m latest rfiles sfiles) c []) =
     (\<Union>f\<in>set rfiles. results_pairs m c f) \<union> (\<Union>f\<in>set sfiles. sample_pairs latest c f)"
  by (simp add: dict_get_build members_fold_samples members_fold_results)

lemma names_upsert:
  "split ` set (upsert_split name p dfs) = insert name (split ` set dfs)"
  using arg_cong [OF split_names_upsert [of name p dfs], of set] by (auto simp: insert_absorb)

lemma names_composite:
  "split ` set (composite_update eds sl rf dfs) =
     split ` set dfs \<union> {eds} \<union> (if eds = sl then {''latest''} else {})"
  by (simp add: composite_update_def Let_def names_upsert insert_commute)

lemma names_config_after_sample:
  "split ` set (config_after_sample latest c f dfs) =
     split ` set dfs \<union> fst ` sample_pairs latest c f"
  by (auto simp: config_after_sample_def sample_pairs_def in_config_def is_latest_sample_def
      Let_def names_composite)

lemma names_config_after_results:
  "split ` set (config_after_results m c f dfs) =
     split ` set dfs \<union> fst ` results_pairs m c f"
  by (auto simp: config_after_results_def results_pairs_def)

lemma names_fold_samples:
  "split ` set (fold (config_after_sample latest c) fs dfs) =
     split ` set dfs \<union> (\<Union>f\<in>set fs. fst ` sample_pairs latest c f)"
  by (induction fs arbitrary: dfs) (simp_all add: names_config_after_sample Un_assoc)

lemma names_fold_results:
  "split ` set (fold (config_after_results m c) fs dfs) =
     split ` set dfs \<union> (\<Union>f\<in>set fs. fst ` results_pairs m c f)"
  by (induction fs arbitrary: dfs) (simp_all add: names_config_after_results Un_assoc)

lemma update_not_Nil: "AList.update k v al \<noteq> []"
  by (cases al) auto

lemma fold_latest_step_not_Nil: "fs \<noteq> [] \<Longrightarrow> fold latest_step fs d \<noteq> []"
  by (cases fs rule: rev_cases) (simp_all add: latest_step_def Let_def update_not_Nil)

lemma max_latest_defined:
  "fs \<noteq> [] \<Longrightarrow> \<exists>m. max_latest_task_results_datetime (latest_task_results_datetime fs) = Inr m"
  using fold_latest_step_not_Nil [of fs "[]"]
  by (auto simp: max_latest_task_results_datetime_def latest_task_results_datetime_def
      split: list.splits)

lemma catalog_builder_cases:
  "catalog_builder files =
     (if sample_files files = [] then Inl ValueError
      else Inr (projr (max_latest_task_results_datetime
                        (latest_task_results_datetime (sample_files files))),
                build_card_metadata
                  (projr (max_latest_task_results_datetime
                        (latest_task_results_datetime (sample_files files))))
                  (latest_task_results_datetime (sample_files files))
                  (results_files files) (sample_files files)))"
proof (cases "sample_files files = []")
  case True
  then show ?thesis
    by (simp add: catalog_builder_def latest_task_results_datetime_def
        max_latest_task_results_datetime_def)
next
  case False
  from max_latest_defined [OF this] obtain m where
    "max_latest_task_results_datetime (latest_task_results_datetime (sample_files files)) = Inr m"
    by blast
  with False show ?thesis by (simp add: catalog_builder_def Let_def)
qed

lemma dict_get_latest_step:
  "dict_get (latest_step f d) t datetime_min =
     (if t = file_task f then max (dict_get d t datetime_min) (file_date f)
      else dict_get d t datetime_min)"
  by (simp add: latest_step_def Let_def dict_get_update file_task_def file_date_def)

lemma dict_get_fold_latest_step:
  "dict_get (fold latest_step fs d) t datetime_min =
     fold max (map file_date (filter (\<lambda>f. file_task f = t) fs)) (dict_get d t datetime_min)"
  by (induction fs arbitrary: d) (simp_all add: dict_get_latest_step max.commute)

lemma task_latest_Max:
  "task_latest files t = Max (set (datetime_min # task_dates files t))"
  by (simp only: task_latest_def latest_task_results_datetime_def dict_get_fold_latest_step
      dict_get_Nil task_dates_def Max.set_eq_fold)

lemma task_dates_mset:
  "mset files' = mset files \<Longrightarrow> mset (task_dates files' t) = mset (task_dates files t)"
  by (simp add: task_dates_def sample_files_def)

lemma task_latest_permute:
  assumes "mset files' = mset files"
  shows "task_latest files' t = task_latest files t"
proof -
  have "set (task_dates files' t) = set (task_dates files t)"
    using task_dates_mset [OF assms, of t] by (metis set_mset_mset)
  then show ?thesis by (simp add: task_latest_Max)
qed

lemma task_latest_is_maximum:
  assumes "d \<in> set (task_dates files t)" "datetime_min \<le> d"
  shows "task_latest files t = Max (set (task_dates files t))"
proof -
  have ne: "set (task_dates files t) \<noteq> {}" using assms(1) by auto
  have "d \<le> Max (set (task_dates files t))" using assms(1) by simp
  with assms(2) have "datetime_min \<le> Max (set (task_dates files t))" by simp
  with ne show ?thesis by (simp add: task_latest_Max max_def)
qed


section \<open>Properties of the sanitizer\<close>

lemma shape_of_sanitize_list: "shape_of (sanitize_list v) = shape_of v"
  by (induction v rule: sanitize_list.induct) simp_all

lemma leaves_sanitize_list:
  "leaves (sanitize_list v) = map (\<lambda>l. PyStr (py_str l)) (leaves v)"
  by (induction v rule: sanitize_list.induct) (simp_all add: map_concat comp_def cong: map_cong)

text \<open>
  C10. The sanitizer is idempotent: sanitizing a sanitized value returns it unchanged.
  Lists stay lists, tuples stay tuples, and every leaf is already a string, which
  \<^verbatim>\<open>str\<close> returns as it is.
\<close>

theorem sanitize_list_idempotent: "sanitize_list (sanitize_list v) = sanitize_list v"
  by (induction v rule: sanitize_list.induct) simp_all

text \<open>
  C7, as stated, fails: the claim has \<^verbatim>\<open>sanitize([1, [2, (3, "x")]])\<close> yield
  \<^verbatim>\<open>["1", ["2", ["3", "x"]]]\<close>, with the tuple turned into a list. The tuple branch
  of the source returns \<^verbatim>\<open>tuple(...)\<close>, so the inner value is the tuple
  \<^verbatim>\<open>("3", "x")\<close>, which is not the list \<^verbatim>\<open>["3", "x"]\<close>.
\<close>

theorem sanitize_list_tuple_counterexample:
  "sanitize_list
     (PyList [Leaf (PyInt 1), PyList [Leaf (PyInt 2), PyTuple [Leaf (PyInt 3), Leaf (PyStr ''x'')]]])
   \<noteq> PyList [Leaf (PyStr ''1''),
        PyList [Leaf (PyStr ''2''), PyList [Leaf (PyStr ''3''), Leaf (PyStr ''x'')]]]"
  by simp

text \<open>
  C7, amended. For every nested value, \<^verbatim>\<open>sanitize_list\<close> keeps the nesting shape
  exactly, a list staying a list and a tuple staying a tuple, and turns every leaf, in
  order, into its string representation; \<^verbatim>\<open>sanitize_list([1, [2, (3, "x")]])\<close> is
  \<^verbatim>\<open>["1", ["2", ("3", "x")]]\<close>.
\<close>

theorem sanitize_list_shape:
  "shape_of (sanitize_list v) = shape_of v \<and>
   leaves (sanitize_list v) = map (\<lambda>l. PyStr (py_str l)) (leaves v) \<and>
   sanitize_list
     (PyList [Leaf (PyInt 1), PyList [Leaf (PyInt 2), PyTuple [Leaf (PyInt 3), Leaf (PyStr ''x'')]]])
   = PyList [Leaf (PyStr ''1''),
       PyList [Leaf (PyStr ''2''), PyTuple [Leaf (PyStr ''3''), Leaf (PyStr ''x'')]]]"
  by (simp add: shape_of_sanitize_list leaves_sanitize_list str_int_def str_nat.simps)

section \<open>Properties of the task hashes\<close>

lemma concat_fixed_width:
  "length xs = length ys \<Longrightarrow> \<forall>x\<in>set xs. length x = n \<Longrightarrow> \<forall>y\<in>set ys. length y = n \<Longrightarrow>
   concat xs = concat ys \<Longrightarrow> xs = ys"
  by (induction xs ys rule: list_induct2) auto

lemma sample_hashes_inj:
  assumes "length xs = length ys" "list_all (fixed_width n) xs" "list_all (fixed_width n) ys"
    and eq: "concat (sample_hashes xs) = concat (sample_hashes ys)"
  shows "xs = ys"
proof -
  have "sample_hashes xs = sample_hashes ys"
  proof (rule concat_fixed_width [where n = "3 * n"])
    show "length (sample_hashes xs) = length (sample_hashes ys)"
      using assms(1) by (simp add: sample_hashes_def)
    show "\<forall>x\<in>set (sample_hashes xs). length x = 3 * n"
      using assms(2) by (auto simp: sample_hashes_def list_all_iff fixed_width_def)
    show "\<forall>x\<in>set (sample_hashes ys). length x = 3 * n"
      using assms(3) by (auto simp: sample_hashes_def list_all_iff fixed_width_def)
    show "concat (sample_hashes xs) = concat (sample_hashes ys)" by (fact eq)
  qed
  with assms(1,2,3) show ?thesis
  proof (induction xs ys rule: list_induct2)
    case Nil
    then show ?case by simp
  next
    case (Cons x xs y ys)
    then have "doc_hash x @ prompt_hash x @ target_hash x
        = doc_hash y @ prompt_hash y @ target_hash y"
      by (simp add: sample_hashes_def)
    moreover have "length (doc_hash x) = length (doc_hash y)"
      and "length (prompt_hash x) = length (prompt_hash y)"
      using Cons.prems by (simp_all add: fixed_width_def)
    ultimately have "x = y" by simp
    with Cons show ?case by (simp add: sample_hashes_def)
  qed
qed

text \<open>
  C9. The task hash is the hash of the samples' three hash strings, concatenated in
  order: for the samples \<^verbatim>\<open>("a","b","c")\<close>, \<^verbatim>\<open>("d","e","f")\<close> it is the hash of
  \<^verbatim>\<open>"abcdef"\<close>, and for the two samples swapped the hash of \<^verbatim>\<open>"defabc"\<close>. In
  general, for hash strings of one width, a permutation that changes the sequence of
  samples changes the hashed string, so it changes the task hash unless
  \<^verbatim>\<open>hash_string\<close> collides on the two strings.
\<close>

theorem task_hash_order_sensitive:
  "task_hash h [\<lparr>doc_hash = ''a'', prompt_hash = ''b'', target_hash = ''c''\<rparr>,
                \<lparr>doc_hash = ''d'', prompt_hash = ''e'', target_hash = ''f''\<rparr>] = h ''abcdef'' \<and>
   task_hash h [\<lparr>doc_hash = ''d'', prompt_hash = ''e'', target_hash = ''f''\<rparr>,
                \<lparr>doc_hash = ''a'', prompt_hash = ''b'', target_hash = ''c''\<rparr>] = h ''defabc'' \<and>
   (mset ys = mset xs \<and> ys \<noteq> xs \<and> list_all (fixed_width n) xs \<and>
    inj_on h {concat (sample_hashes xs), concat (sample_hashes ys)}
    \<longrightarrow> task_hash h ys \<noteq> task_hash h xs)"
proof (intro conjI impI)
  assume a: "mset ys = mset xs \<and> ys \<noteq> xs \<and> list_all (fixed_width n) xs \<and>
    inj_on h {concat (sample_hashes xs), concat (sample_hashes ys)}"
  then have len: "length ys = length xs"
    by (metis size_mset)
  from a have "set ys = set xs"
    by (metis set_mset_mset)
  with a have fw: "list_all (fixed_width n) ys"
    by (simp add: list_all_iff)
  from a len fw have "concat (sample_hashes ys) \<noteq> concat (sample_hashes xs)"
    using sample_hashes_inj [of ys xs n] by blast
  with a show "task_hash h ys \<noteq> task_hash h xs"
    by (auto simp: task_hash_def inj_on_def)
qed (simp_all add: task_hash_def sample_hashes_def)

theorem task_hash_order_sensitive_witness:
  "task_hash id [\<lparr>doc_hash = ''d'', prompt_hash = ''e'', target_hash = ''f''\<rparr>,
                 \<lparr>doc_hash = ''a'', prompt_hash = ''b'', target_hash = ''c''\<rparr>]
   \<noteq> task_hash id [\<lparr>doc_hash = ''a'', prompt_hash = ''b'', target_hash = ''c''\<rparr>,
                   \<lparr>doc_hash = ''d'', prompt_hash = ''e'', target_hash = ''f''\<rparr>]"
  using task_hash_order_sensitive
    [of id "[\<lparr>doc_hash = ''d'', prompt_hash = ''e'', target_hash = ''f''\<rparr>,
             \<lparr>doc_hash = ''a'', prompt_hash = ''b'', target_hash = ''c''\<rparr>]"
        "[\<lparr>doc_hash = ''a'', prompt_hash = ''b'', target_hash = ''c''\<rparr>,
          \<lparr>doc_hash = ''d'', prompt_hash = ''e'', target_hash = ''f''\<rparr>]" 1]
  by (simp add: fixed_width_def)

section \<open>The method on concrete listings\<close>

lemma catalog_builder_no_samples:
  "catalog_builder [] = Inl ValueError"
  "catalog_builder [''m/results_2024-01-01T00-00-00.json''] = Inl ValueError"
  by code_simp+

lemma catalog_builder_no_results:
  "catalog_builder [''m/samples_gsm8k_2024-01-01T00-00-00.json''] =
     Inr (''2024-01-01T00-00-00'',
       [(''gsm8k'',
         [\<lparr>split = ''2024_01_01T00_00_00'',
            path = [''**/samples_gsm8k_2024-01-01T00-00-00.json'']\<rparr>,
          \<lparr>split = ''latest'', path = [''**/samples_gsm8k_2024-01-01T00-00-00.json'']\<rparr>])])"
  "last_results_file ''2024-01-01T00-00-00''
     (results_files [''m/samples_gsm8k_2024-01-01T00-00-00.json'']) = Inl IndexError"
  by code_simp+

lemma catalog_builder_one_run:
  "catalog_builder
     [''m/results_2024-01-01T00-00-00.json'', ''m/samples_gsm8k_2024-01-01T00-00-00.json''] =
   Inr (''2024-01-01T00-00-00'',
     [(''results'',
       [\<lparr>split = ''2024_01_01T00_00_00'', path = [''**/results_2024-01-01T00-00-00.json'']\<rparr>,
        \<lparr>split = ''latest'', path = [''**/results_2024-01-01T00-00-00.json'']\<rparr>]),
      (''gsm8k'',
       [\<lparr>split = ''2024_01_01T00_00_00'',
          path = [''**/samples_gsm8k_2024-01-01T00-00-00.json'']\<rparr>,
        \<lparr>split = ''latest'', path = [''**/samples_gsm8k_2024-01-01T00-00-00.json'']\<rparr>])])"
  "last_results_file ''2024-01-01T00-00-00''
     (results_files
       [''m/results_2024-01-01T00-00-00.json'', ''m/samples_gsm8k_2024-01-01T00-00-00.json''])
   = Inr ''m/results_2024-01-01T00-00-00.json''"
  "sanitize_task (get_file_task_name (basename (last (sample_files
       [''m/results_2024-01-01T00-00-00.json'', ''m/samples_gsm8k_2024-01-01T00-00-00.json''])))) =
   ''gsm8k''"
  by code_simp+

text \<open>
  C1. The claim asks that an empty listing of sample files or of results files does not
  make the method fail. The source has no branch for either: with no sample file,
  \<^verbatim>\<open>max(latest_task_results_datetime.values())\<close> is the \<^verbatim>\<open>max\<close> of an empty
  sequence and raises \<^verbatim>\<open>ValueError\<close> (also when results files are there); with sample
  files and no results file, the two loops run, and the \<^verbatim>\<open>[0]\<close> that picks the last
  results file raises \<^verbatim>\<open>IndexError\<close>.
\<close>

theorem empty_listing_raises:
  "fst (recreate_metadata_card hub_url results_string self []) = Inl ValueError \<and>
   fst (recreate_metadata_card hub_url results_string self
          [''m/results_2024-01-01T00-00-00.json'']) = Inl ValueError \<and>
   fst (recreate_metadata_card hub_url results_string self
          [''m/samples_gsm8k_2024-01-01T00-00-00.json'']) = Inl IndexError"
  by (simp add: recreate_metadata_card_def catalog_builder_no_samples catalog_builder_no_results)

text \<open>
  C6. The claim asks that the summary hold the number of configurations, the number of
  runs and the table of the latest results. In the source the lines that hold them are
  expression statements after a complete \<^verbatim>\<open>+=\<close> statement, so their text never
  reaches \<^verbatim>\<open>dataset_summary\<close>: for one run of one task, the summary is the text below,
  whatever the results file holds.
\<close>

theorem summary_omits_counts_and_results:
  "map_sum id card_summary (fst (recreate_metadata_card hub_url results_string
     \<lparr>general_config_tracker = \<lparr>model_source = ''hf'', model_name = ''org/model''\<rparr>,
      hub_results_repo = ''org/lm-eval-results'',
      hub_results_repo_private = ''org/lm-eval-results-private'',
      public_repo = False\<rparr>
     [''m/results_2024-01-01T00-00-00.json'', ''m/samples_gsm8k_2024-01-01T00-00-00.json''])) =
   Inr (''Dataset automatically created during the evaluation run of model ''
        @ ''[org/model](https://huggingface.co/org/model).'' @ nl @ nl
        @ ''```python'' @ nl @ ''from datasets import load_dataset'' @ nl
        @ ''data = load_dataset('' @ nl @ tab @ dq @ ''org/lm-eval-results-private'' @ dq @ '','' @ nl
        @ tab @ dq @ ''gsm8k'' @ dq @ '','' @ nl
        @ tab @ ''split='' @ dq @ ''latest'' @ dq @ nl @ '')'' @ nl @ ''```'' @ nl @ nl
        @ ''## Latest results'' @ nl @ nl)"
  by (simp add: recreate_metadata_card_def catalog_builder_one_run dataset_summary_def
      repo_id_def org_string_def)

section \<open>The catalog\<close>

lemma upsert_split_existing:
  "name \<in> split ` set dfs \<Longrightarrow> map split (upsert_split name p dfs) = map split dfs"
  by (simp add: split_names_upsert)

lemma upsert_split_appends_path:
  "distinct (map split dfs) \<Longrightarrow> \<lparr>split = name, path = ps\<rparr> \<in> set dfs \<Longrightarrow>
   \<lparr>split = name, path = ps @ [p]\<rparr> \<in> set (upsert_split name p dfs)"
  by (induction dfs) (auto simp: image_iff)

lemma config_after_sample_composite:
  "c \<noteq> file_config f \<Longrightarrow> distinct (map split dfs) \<Longrightarrow>
   distinct (map split (config_after_sample latest c f dfs))"
  by (simp add: config_after_sample_def Let_def distinct_split_names_composite)

lemma config_after_results_other: "c \<noteq> ''results'' \<Longrightarrow> config_after_results m c f dfs = dfs"
  by (simp add: config_after_results_def)

lemma fold_config_after_results_other:
  "c \<noteq> ''results'' \<Longrightarrow> fold (config_after_results m c) fs dfs = dfs"
  by (induction fs) (simp_all add: config_after_results_other)

lemma results_not_special: "''results'' \<notin> set SPECIAL_TASKS"
  by (simp add: SPECIAL_TASKS_def)

lemma composite_fold_distinct:
  "c \<notin> file_config ` set fs \<Longrightarrow> distinct (map split dfs) \<Longrightarrow>
   distinct (map split (fold (config_after_sample latest c) fs dfs))"
  by (induction fs arbitrary: dfs) (auto simp: config_after_sample_composite)

lemma catalog_builder_Inr:
  assumes "catalog_builder files = Inr (m, cm)"
  shows "sample_files files \<noteq> []"
    and "cm = build_card_metadata m (latest_task_results_datetime (sample_files files))
               (results_files files) (sample_files files)"
  using assms
  by (auto simp: catalog_builder_def Let_def latest_task_results_datetime_def
      max_latest_task_results_datetime_def split: sum.splits)

lemma composite_config_distinct:
  assumes "c \<in> set SPECIAL_TASKS" "c \<notin> file_config ` set (sample_files files)"
    "catalog_builder files = Inr (m, cm)"
  shows "distinct (map split (dict_get cm c []))"
proof -
  from assms(1) have "c \<noteq> ''results''" using results_not_special by auto
  moreover note catalog_builder_Inr(2) [OF assms(3)]
  ultimately show ?thesis
    using assms(2) by (simp add: dict_get_build fold_config_after_results_other composite_fold_distinct)
qed

lemma mmlu_example:
  "catalog_builder
     [''m/samples_mmlu_abstract_algebra_2024-01-01T00-00-00.json'',
      ''m/samples_mmlu_world_religions_2024-01-01T00-00-00.json''] =
   Inr (''2024-01-01T00-00-00'',
     [(''mmlu_abstract_algebra'',
       [\<lparr>split = ''2024_01_01T00_00_00'',
          path = [''**/samples_mmlu_abstract_algebra_2024-01-01T00-00-00.json'']\<rparr>,
        \<lparr>split = ''latest'',
          path = [''**/samples_mmlu_abstract_algebra_2024-01-01T00-00-00.json'']\<rparr>]),
      (''mmlu_'',
       [\<lparr>split = ''2024_01_01T00_00_00'',
          path = [''**/samples_mmlu_abstract_algebra_2024-01-01T00-00-00.json'',
                  ''**/samples_mmlu_world_religions_2024-01-01T00-00-00.json'']\<rparr>,
        \<lparr>split = ''latest'',
          path = [''**/samples_mmlu_abstract_algebra_2024-01-01T00-00-00.json'',
                  ''**/samples_mmlu_world_religions_2024-01-01T00-00-00.json'']\<rparr>]),
      (''mmlu_world_religions'',
       [\<lparr>split = ''2024_01_01T00_00_00'',
          path = [''**/samples_mmlu_world_religions_2024-01-01T00-00-00.json'']\<rparr>,
        \<lparr>split = ''latest'',
          path = [''**/samples_mmlu_world_religions_2024-01-01T00-00-00.json'']\<rparr>])])"
  by code_simp

lemma prefix_named_task_example:
  "catalog_builder
     [''m/samples_mmlu._2024-01-01T00-00-00.json'',
      ''m/samples_mmlu-_2024-01-01T00-00-00.json''] =
   Inr (''2024-01-01T00-00-00'',
     [(''mmlu_'',
       [\<lparr>split = ''2024_01_01T00_00_00'',
          path = [''**/samples_mmlu._2024-01-01T00-00-00.json'',
                  ''**/samples_mmlu._2024-01-01T00-00-00.json'',
                  ''**/samples_mmlu-_2024-01-01T00-00-00.json'']\<rparr>,
        \<lparr>split = ''latest'',
          path = [''**/samples_mmlu._2024-01-01T00-00-00.json'',
                  ''**/samples_mmlu._2024-01-01T00-00-00.json'',
                  ''**/samples_mmlu-_2024-01-01T00-00-00.json'']\<rparr>,
        \<lparr>split = ''2024_01_01T00_00_00'',
          path = [''**/samples_mmlu-_2024-01-01T00-00-00.json'']\<rparr>,
        \<lparr>split = ''latest'', path = [''**/samples_mmlu-_2024-01-01T00-00-00.json'']\<rparr>])])"
  by code_simp

text \<open>
  C4, as stated, fails. For the two sample files of the claim, the configuration
  \<^verbatim>\<open>"mmlu_"\<close> holds two splits, not one: the split of the time stamp and the split
  \<^verbatim>\<open>"latest"\<close>, each with the two paths. And a configuration of a special task can get
  a second split for a time stamp that it has already: the tasks \<^verbatim>\<open>mmlu.\<close> and
  \<^verbatim>\<open>mmlu-\<close> are both sanitized to \<^verbatim>\<open>mmlu_\<close>, so the branch of the task, which appends
  without looking for a split, writes to the configuration that the composite branch
  reads, and the configuration ends with the splits of the time stamp, \<^verbatim>\<open>"latest"\<close>,
  the time stamp again and \<^verbatim>\<open>"latest"\<close> again.
\<close>

theorem composite_second_split_counterexample:
  "map_sum id (\<lambda>(m, cm). map split (dict_get cm ''mmlu_'' []))
     (catalog_builder
       [''m/samples_mmlu_abstract_algebra_2024-01-01T00-00-00.json'',
        ''m/samples_mmlu_world_religions_2024-01-01T00-00-00.json'']) =
     Inr [''2024_01_01T00_00_00'', ''latest''] \<and>
   catalog_builder
     [''m/samples_mmlu._2024-01-01T00-00-00.json'',
      ''m/samples_mmlu-_2024-01-01T00-00-00.json''] =
   Inr (''2024-01-01T00-00-00'',
     [(''mmlu_'',
       [\<lparr>split = ''2024_01_01T00_00_00'',
          path = [''**/samples_mmlu._2024-01-01T00-00-00.json'',
                  ''**/samples_mmlu._2024-01-01T00-00-00.json'',
                  ''**/samples_mmlu-_2024-01-01T00-00-00.json'']\<rparr>,
        \<lparr>split = ''latest'',
          path = [''**/samples_mmlu._2024-01-01T00-00-00.json'',
                  ''**/samples_mmlu._2024-01-01T00-00-00.json'',
                  ''**/samples_mmlu-_2024-01-01T00-00-00.json'']\<rparr>,
        \<lparr>split = ''2024_01_01T00_00_00'',
          path = [''**/samples_mmlu-_2024-01-01T00-00-00.json'']\<rparr>,
        \<lparr>split = ''latest'', path = [''**/samples_mmlu-_2024-01-01T00-00-00.json'']\<rparr>])])"
  by (simp add: mmlu_example prefix_named_task_example dict_get_def)

text \<open>
  C4, amended. In the listing of the two \<^verbatim>\<open>mmlu_\<close> sample files of one time stamp,
  the configuration \<^verbatim>\<open>"mmlu_"\<close> has one split named by the sanitized time stamp, with
  the two paths, and next to it the split \<^verbatim>\<open>"latest"\<close> with the same two paths. Where
  a split of the name is there already, the composite update adds no split and puts the
  path into that split, at the end of its path list; it keeps the split names of a
  configuration distinct; and in every catalog the split names of a special task's
  configuration are distinct, as long as no task has the special task's name as its own
  sanitized name.
\<close>

theorem composite_never_second_split:
  "map_sum id (\<lambda>(m, cm). dict_get cm ''mmlu_'' [])
     (catalog_builder
       [''m/samples_mmlu_abstract_algebra_2024-01-01T00-00-00.json'',
        ''m/samples_mmlu_world_religions_2024-01-01T00-00-00.json'']) =
     Inr [\<lparr>split = ''2024_01_01T00_00_00'',
            path = [''**/samples_mmlu_abstract_algebra_2024-01-01T00-00-00.json'',
                    ''**/samples_mmlu_world_religions_2024-01-01T00-00-00.json'']\<rparr>,
          \<lparr>split = ''latest'',
            path = [''**/samples_mmlu_abstract_algebra_2024-01-01T00-00-00.json'',
                    ''**/samples_mmlu_world_religions_2024-01-01T00-00-00.json'']\<rparr>] \<and>
   (name \<in> split ` set data_files \<longrightarrow>
      map split (upsert_split name p data_files) = map split data_files \<and>
      members (upsert_split name p data_files) = insert (name, p) (members data_files)) \<and>
   (distinct (map split data_files) \<and> \<lparr>split = name, path = ps\<rparr> \<in> set data_files \<longrightarrow>
      \<lparr>split = name, path = ps @ [p]\<rparr> \<in> set (upsert_split name p data_files)) \<and>
   (distinct (map split data_files) \<longrightarrow>
      distinct (map split (composite_update eds sl p data_files))) \<and>
   (c \<in> set SPECIAL_TASKS \<and> c \<notin> file_config ` set (sample_files files_in_repo) \<and>
    catalog_builder files_in_repo = Inr (m, cm) \<longrightarrow>
      distinct (map split (dict_get cm c [])))"
proof (intro conjI impI)
  show "map_sum id (\<lambda>(m, cm). dict_get cm ''mmlu_'' [])
     (catalog_builder
       [''m/samples_mmlu_abstract_algebra_2024-01-01T00-00-00.json'',
        ''m/samples_mmlu_world_religions_2024-01-01T00-00-00.json'']) =
     Inr [\<lparr>split = ''2024_01_01T00_00_00'',
            path = [''**/samples_mmlu_abstract_algebra_2024-01-01T00-00-00.json'',
                    ''**/samples_mmlu_world_religions_2024-01-01T00-00-00.json'']\<rparr>,
          \<lparr>split = ''latest'',
            path = [''**/samples_mmlu_abstract_algebra_2024-01-01T00-00-00.json'',
                    ''**/samples_mmlu_world_religions_2024-01-01T00-00-00.json'']\<rparr>]"
    by (simp add: mmlu_example dict_get_def)
next
  assume "c \<in> set SPECIAL_TASKS \<and> c \<notin> file_config ` set (sample_files files_in_repo) \<and>
    catalog_builder files_in_repo = Inr (m, cm)"
  then show "distinct (map split (dict_get cm c []))"
    using composite_config_distinct [of c files_in_repo m cm] by blast
qed (simp_all add: upsert_split_existing upsert_split_appends_path
      distinct_split_names_composite)

lemma mmlu_example_files:
  "map file_config (sample_files
     [''m/samples_mmlu_abstract_algebra_2024-01-01T00-00-00.json'',
      ''m/samples_mmlu_world_religions_2024-01-01T00-00-00.json'']) =
   [''mmlu_abstract_algebra'', ''mmlu_world_religions'']"
  by code_simp

theorem composite_never_second_split_witness:
  "map split (upsert_split ''t'' ''q'' [\<lparr>split = ''t'', path = [''p'']\<rparr>]) = [''t''] \<and>
   \<lparr>split = ''t'', path = [''p'', ''q'']\<rparr>
     \<in> set (upsert_split ''t'' ''q'' [\<lparr>split = ''t'', path = [''p'']\<rparr>]) \<and>
   distinct (map split (composite_update ''t'' ''t'' ''q'' [\<lparr>split = ''t'', path = [''p'']\<rparr>])) \<and>
   distinct (map split (dict_get (snd (projr (catalog_builder
     [''m/samples_mmlu_abstract_algebra_2024-01-01T00-00-00.json'',
      ''m/samples_mmlu_world_religions_2024-01-01T00-00-00.json'']))) ''mmlu_'' []))"
proof -
  let ?L = "[''m/samples_mmlu_abstract_algebra_2024-01-01T00-00-00.json'',
      ''m/samples_mmlu_world_religions_2024-01-01T00-00-00.json'']"
  have "file_config ` set (sample_files ?L) = set (map file_config (sample_files ?L))"
    by simp
  then have notin: "''mmlu_'' \<notin> file_config ` set (sample_files ?L)"
    unfolding mmlu_example_files by simp
  have cb: "catalog_builder ?L = Inr (''2024-01-01T00-00-00'', snd (projr (catalog_builder ?L)))"
    by (simp add: mmlu_example)
  have sp: "''mmlu_'' \<in> set SPECIAL_TASKS" by (simp add: SPECIAL_TASKS_def)
  show ?thesis
    using composite_never_second_split
      [where name = "''t''" and data_files = "[\<lparr>split = ''t'', path = [''p'']\<rparr>]" and p = "''q''"
         and ps = "[''p'']" and eds = "''t''" and sl = "''t''" and c = "''mmlu_''"
         and files_in_repo = ?L and m = "''2024-01-01T00-00-00''"
         and cm = "snd (projr (catalog_builder ?L))"]
      notin cb sp
    by simp
qed

lemma members_catalog:
  assumes "catalog_builder files = Inr (m, cm)"
  shows "members (dict_get cm c []) =
     (\<Union>f\<in>set (results_files files). results_pairs m c f) \<union>
     (\<Union>f\<in>set (sample_files files).
        sample_pairs (latest_task_results_datetime (sample_files files)) c f)"
  using catalog_builder_Inr(2) [OF assms] by (simp add: members_build)

lemma catalog_builder_succeeds:
  "sample_files files \<noteq> [] \<Longrightarrow> \<exists>m cm. catalog_builder files = Inr (m, cm)"
  by (simp add: catalog_builder_cases)

lemma malformed_example:
  "get_file_task_name ''samples_foo.json'' = []"
  "get_file_datetime ''samples_foo.json'' = ''foo''"
  "catalog_builder [''m/results_foo.json'', ''m/samples_foo.json''] =
     Inr (''foo'',
       [(''results'',
         [\<lparr>split = ''foo'', path = [''**/results_foo.json'']\<rparr>,
          \<lparr>split = ''latest'', path = [''**/results_foo.json'']\<rparr>]),
        ([],
         [\<lparr>split = ''foo'', path = [''**/samples_foo.json'']\<rparr>,
          \<lparr>split = ''latest'', path = [''**/samples_foo.json'']\<rparr>])])"
  "sample_files [''m/results_foo.json'', ''m/samples_foo.json''] = [''m/samples_foo.json'']"
  "results_files [''m/results_foo.json'', ''m/samples_foo.json''] = [''m/results_foo.json'']"
  "file_config ''m/samples_foo.json'' = []"
  "file_split ''m/samples_foo.json'' = ''foo''"
  "file_path ''m/samples_foo.json'' = ''**/samples_foo.json''"
  "file_split ''m/results_foo.json'' = ''foo''"
  "file_path ''m/results_foo.json'' = ''**/results_foo.json''"
  by code_simp+

text \<open>
  C8, as stated, fails: no file name makes the parser fail. The name
  \<^verbatim>\<open>samples_foo.json\<close> has one underscore only, so it is not of the form
  \<^verbatim>\<open>samples_<task>_<timestamp>.json\<close>; the slices give the empty task name and the time
  stamp \<^verbatim>\<open>foo\<close>, and the builder puts the file into a configuration with the empty
  name.
\<close>

theorem malformed_filename_counterexample:
  "get_file_task_name ''samples_foo.json'' = [] \<and>
   get_file_datetime ''samples_foo.json'' = ''foo'' \<and>
   catalog_builder [''m/results_foo.json'', ''m/samples_foo.json''] =
     Inr (''foo'',
       [(''results'',
         [\<lparr>split = ''foo'', path = [''**/results_foo.json'']\<rparr>,
          \<lparr>split = ''latest'', path = [''**/results_foo.json'']\<rparr>]),
        ([],
         [\<lparr>split = ''foo'', path = [''**/samples_foo.json'']\<rparr>,
          \<lparr>split = ''latest'', path = [''**/samples_foo.json'']\<rparr>])])"
  by (simp add: malformed_example)

text \<open>
  C8, amended. Parsing a file name never fails: every file of the listing whose path
  holds \<^verbatim>\<open>/samples_\<close> and \<^verbatim>\<open>.json\<close>, well formed or not, is put into the
  configuration and the split that the slices at the first and the last underscore
  give for it, and every results file into the configuration \<^verbatim>\<open>"results"\<close>. With one
  sample file in the listing, the parsing and the two loops do not fail. Nothing is said
  here about the steps after the loops.
\<close>

theorem every_listed_file_is_grouped:
  assumes "f \<in> set (sample_files files_in_repo)"
  shows "\<exists>m cm. catalog_builder files_in_repo = Inr (m, cm) \<and>
     (file_split f, file_path f) \<in> members (dict_get cm (file_config f) []) \<and>
     (\<forall>g. g \<in> set (results_files files_in_repo) \<longrightarrow>
        (file_split g, file_path g) \<in> members (dict_get cm ''results'' []))"
proof -
  from assms have "sample_files files_in_repo \<noteq> []" by auto
  then obtain m cm where cb: "catalog_builder files_in_repo = Inr (m, cm)"
    using catalog_builder_succeeds by blast
  have "(file_split f, file_path f) \<in> members (dict_get cm (file_config f) [])"
    using assms by (auto simp: members_catalog [OF cb] sample_pairs_def in_config_def)
  moreover have "(file_split g, file_path g) \<in> members (dict_get cm ''results'' [])"
    if "g \<in> set (results_files files_in_repo)" for g
    using that by (auto simp: members_catalog [OF cb] results_pairs_def)
  ultimately show ?thesis using cb by blast
qed

theorem every_listed_file_is_grouped_witness:
  "(''foo'', ''**/samples_foo.json'') \<in> members
      (dict_get (snd (projr (catalog_builder [''m/results_foo.json'', ''m/samples_foo.json''])))
         [] []) \<and>
   (''foo'', ''**/results_foo.json'') \<in> members
      (dict_get (snd (projr (catalog_builder [''m/results_foo.json'', ''m/samples_foo.json''])))
         ''results'' [])"
  using every_listed_file_is_grouped
    [of "''m/samples_foo.json''" "[''m/results_foo.json'', ''m/samples_foo.json'']"]
  by (auto simp: malformed_example)

lemma year_one_example:
  "task_latest [''m/samples_gsm8k_0001-01-01T00-00-00.json'',
                ''m/samples_gsm8k_0001-01-01T00-00-01.json''] ''gsm8k'' = ''0001-01-01T00:00:00''"
  "task_dates [''m/samples_gsm8k_0001-01-01T00-00-00.json'',
               ''m/samples_gsm8k_0001-01-01T00-00-01.json''] ''gsm8k'' =
     [''0001-01-01T00-00-00'', ''0001-01-01T00-00-01'']"
  "catalog_builder [''m/samples_gsm8k_0001-01-01T00-00-00.json'',
                    ''m/samples_gsm8k_0001-01-01T00-00-01.json''] =
     Inr (''0001-01-01T00:00:00'',
       [(''gsm8k'',
         [\<lparr>split = ''0001_01_01T00_00_00'',
            path = [''**/samples_gsm8k_0001-01-01T00-00-00.json'']\<rparr>,
          \<lparr>split = ''latest'', path = [''**/samples_gsm8k_0001-01-01T00-00-00.json'']\<rparr>,
          \<lparr>split = ''0001_01_01T00_00_01'',
            path = [''**/samples_gsm8k_0001-01-01T00-00-01.json'']\<rparr>])])"
  "''0001-01-01T00-00-00'' < ''0001-01-01T00-00-01''"
  "''0001-01-01T00-00-01'' < ''0001-01-01T00:00:00''"
  by code_simp+

lemma latest_in_sample_pairs:
  "(''latest'', p) \<in> sample_pairs latest c f \<longleftrightarrow>
     in_config c f \<and> p = file_path f \<and> (is_latest_sample latest f \<or> file_split f = ''latest'')"
  by (auto simp: sample_pairs_def)

lemma latest_in_results_pairs:
  "(''latest'', p) \<in> results_pairs m c f \<longleftrightarrow>
     c = ''results'' \<and> p = file_path f \<and>
     (file_split f = sanitize_date m \<or> file_split f = ''latest'')"
  by (auto simp: results_pairs_def)

lemma latest_in_catalog:
  assumes "catalog_builder files = Inr (m, cm)"
  shows "(''latest'', p) \<in> members (dict_get cm c []) \<longleftrightarrow>
     (\<exists>f\<in>set (sample_files files). in_config c f \<and> p = file_path f \<and>
        (file_split f = sanitize_date (task_latest files (file_task f)) \<or>
         file_split f = ''latest'')) \<or>
     (c = ''results'' \<and>
      (\<exists>f\<in>set (results_files files). p = file_path f \<and>
        (file_split f = sanitize_date m \<or> file_split f = ''latest'')))"
  unfolding members_catalog [OF assms] Un_iff UN_iff latest_in_sample_pairs
    latest_in_results_pairs is_latest_sample_def task_latest_def
  by blast

section \<open>The latest time stamp of a task\<close>

text \<open>
  C3. The claim asks that the latest time stamp of a task be the maximum of the task's
  time stamps, and the comment in the source says that the dictionary holds the latest
  datetime of each task. The default of the dictionary, \<^verbatim>\<open>0001-01-01T00:00:00\<close>, is
  meant as a minimum, but it has \<^verbatim>\<open>:\<close> where the time stamps of the file names have
  \<^verbatim>\<open>-\<close>, and \<^verbatim>\<open>-\<close> is smaller than \<^verbatim>\<open>:\<close>. For the two time stamps below the
  dictionary holds the default, which is no time stamp of the task, and the split
  \<^verbatim>\<open>"latest"\<close> holds the file of the smaller time stamp, whose sanitized form is that of
  the default, and not the file of the maximum.
\<close>

theorem task_latest_is_default:
  "task_latest [''m/samples_gsm8k_0001-01-01T00-00-00.json'',
                ''m/samples_gsm8k_0001-01-01T00-00-01.json''] ''gsm8k'' = ''0001-01-01T00:00:00'' \<and>
   Max (set (task_dates [''m/samples_gsm8k_0001-01-01T00-00-00.json'',
                         ''m/samples_gsm8k_0001-01-01T00-00-01.json''] ''gsm8k''))
     = ''0001-01-01T00-00-01'' \<and>
   catalog_builder [''m/samples_gsm8k_0001-01-01T00-00-00.json'',
                    ''m/samples_gsm8k_0001-01-01T00-00-01.json''] =
     Inr (''0001-01-01T00:00:00'',
       [(''gsm8k'',
         [\<lparr>split = ''0001_01_01T00_00_00'',
            path = [''**/samples_gsm8k_0001-01-01T00-00-00.json'']\<rparr>,
          \<lparr>split = ''latest'', path = [''**/samples_gsm8k_0001-01-01T00-00-00.json'']\<rparr>,
          \<lparr>split = ''0001_01_01T00_00_01'',
            path = [''**/samples_gsm8k_0001-01-01T00-00-01.json'']\<rparr>])])"
  by (simp add: year_one_example)

lemma two_runs_example:
  "catalog_builder
     [''m/results_2024-02-01T00-00-00.json'', ''m/samples_gsm8k_2024-01-01T00-00-00.json'',
      ''m/samples_gsm8k_2024-02-01T00-00-00.json''] =
   Inr (''2024-02-01T00-00-00'',
     [(''results'',
       [\<lparr>split = ''2024_02_01T00_00_00'', path = [''**/results_2024-02-01T00-00-00.json'']\<rparr>,
        \<lparr>split = ''latest'', path = [''**/results_2024-02-01T00-00-00.json'']\<rparr>]),
      (''gsm8k'',
       [\<lparr>split = ''2024_01_01T00_00_00'',
          path = [''**/samples_gsm8k_2024-01-01T00-00-00.json'']\<rparr>,
        \<lparr>split = ''2024_02_01T00_00_00'',
          path = [''**/samples_gsm8k_2024-02-01T00-00-00.json'']\<rparr>,
        \<lparr>split = ''latest'', path = [''**/samples_gsm8k_2024-02-01T00-00-00.json'']\<rparr>])])"
  "task_dates
     [''m/results_2024-02-01T00-00-00.json'', ''m/samples_gsm8k_2024-01-01T00-00-00.json'',
      ''m/samples_gsm8k_2024-02-01T00-00-00.json''] ''gsm8k'' =
   [''2024-01-01T00-00-00'', ''2024-02-01T00-00-00'']"
  "datetime_min \<le> ''2024-02-01T00-00-00''"
  "sample_files
     [''m/results_2024-02-01T00-00-00.json'', ''m/samples_gsm8k_2024-01-01T00-00-00.json'',
      ''m/samples_gsm8k_2024-02-01T00-00-00.json''] =
   [''m/samples_gsm8k_2024-01-01T00-00-00.json'', ''m/samples_gsm8k_2024-02-01T00-00-00.json'']"
  "file_path ''m/samples_gsm8k_2024-01-01T00-00-00.json'' =
     ''**/samples_gsm8k_2024-01-01T00-00-00.json''"
  "file_path ''m/samples_gsm8k_2024-02-01T00-00-00.json'' =
     ''**/samples_gsm8k_2024-02-01T00-00-00.json''"
  "file_split ''m/samples_gsm8k_2024-01-01T00-00-00.json'' = ''2024_01_01T00_00_00''"
  "file_split ''m/samples_gsm8k_2024-02-01T00-00-00.json'' = ''2024_02_01T00_00_00''"
  "file_task ''m/samples_gsm8k_2024-01-01T00-00-00.json'' = ''gsm8k''"
  "file_task ''m/samples_gsm8k_2024-02-01T00-00-00.json'' = ''gsm8k''"
  "in_config ''gsm8k'' ''m/samples_gsm8k_2024-01-01T00-00-00.json''"
  "in_config ''gsm8k'' ''m/samples_gsm8k_2024-02-01T00-00-00.json''"
  "sanitize_date ''2024-02-01T00-00-00'' = ''2024_02_01T00_00_00''"
  by code_simp+

section \<open>Names and uniqueness\<close>

lemma is_word_char_underscore: "is_word_char CHR ''_''"
  by (simp add: is_word_char_def)

lemma word_name_sanitize_task: "word_name (sanitize_task s)"
  by (induction s) (simp_all add: word_name_def sanitize_task_def is_word_char_underscore)

lemma split_name_ok_sanitize_date: "split_name_ok (sanitize_date s)"
  by (induction s) (simp_all add: split_name_ok_def sanitize_date_def is_word_char_underscore)

lemma word_name_reserved:
  "word_name ''results''" "list_all word_name SPECIAL_TASKS" "split_name_ok ''latest''"
  by code_simp+

lemma keys_special_step_subset:
  "fst ` set (special_step tns eds sl rf st cm) \<subseteq> insert st (fst ` set cm)"
  unfolding keys_special_step by (simp add: subset_insertI)

lemma keys_fold_special:
  "fst ` set (fold (special_step tns eds sl rf) sts cm) \<subseteq> fst ` set cm \<union> set sts"
proof (induction sts arbitrary: cm)
  case Nil
  then show ?case by simp
next
  case (Cons st sts)
  have "fst ` set (fold (special_step tns eds sl rf) (st # sts) cm)
      \<subseteq> fst ` set (special_step tns eds sl rf st cm) \<union> set sts"
    using Cons [of "special_step tns eds sl rf st cm"] by simp
  also have "\<dots> \<subseteq> insert st (fst ` set cm) \<union> set sts"
    using keys_special_step_subset [of tns eds sl rf st cm] by blast
  finally show ?case by auto
qed

lemma distinct_keys_fold_special:
  "distinct (map fst cm) \<Longrightarrow> distinct (map fst (fold (special_step tns eds sl rf) sts cm))"
  by (induction sts arbitrary: cm) (simp_all add: distinct_keys_special_step)

lemma add_sample_file_shape:
  "\<exists>tns eds sl rf cm2.
     add_sample_file latest f cm = fold (special_step tns eds sl rf) SPECIAL_TASKS cm2 \<and>
     fst ` set cm2 = insert (file_config f) (fst ` set cm) \<and>
     (distinct (map fst cm) \<longrightarrow> distinct (map fst cm2))"
  unfolding add_sample_file_def Let_def file_config_def file_task_def
  by (intro exI conjI, rule refl)
    (simp_all add: keys_append_data_file distinct_keys_append_data_file)

lemma keys_add_sample_file:
  "fst ` set (add_sample_file latest f cm) \<subseteq> fst ` set cm \<union> {file_config f} \<union> set SPECIAL_TASKS"
proof -
  obtain tns eds sl rf cm2 where
    "add_sample_file latest f cm = fold (special_step tns eds sl rf) SPECIAL_TASKS cm2"
    "fst ` set cm2 = insert (file_config f) (fst ` set cm)"
    using add_sample_file_shape [of latest f cm] by (elim exE conjE) (rule that)
  then show ?thesis
    using keys_fold_special [of tns eds sl rf SPECIAL_TASKS cm2] by auto
qed

lemma distinct_keys_add_sample_file:
  "distinct (map fst cm) \<Longrightarrow> distinct (map fst (add_sample_file latest f cm))"
proof -
  assume d: "distinct (map fst cm)"
  from add_sample_file_shape [of latest f cm] obtain tns eds sl rf cm2 where
    eq: "add_sample_file latest f cm = fold (special_step tns eds sl rf) SPECIAL_TASKS cm2"
    and "distinct (map fst cm) \<longrightarrow> distinct (map fst cm2)"
    by (elim exE conjE) (rule that)
  with d have "distinct (map fst cm2)" by simp
  then show ?thesis unfolding eq by (rule distinct_keys_fold_special)
qed

lemma keys_add_results_file:
  "fst ` set (add_results_file m f cm) \<subseteq> insert ''results'' (fst ` set cm)"
  by (simp add: add_results_file_def Let_def keys_append_data_file subset_insertI)

lemma distinct_keys_add_results_file:
  "distinct (map fst cm) \<Longrightarrow> distinct (map fst (add_results_file m f cm))"
  by (simp add: add_results_file_def Let_def distinct_keys_append_data_file)

lemma keys_fold_results:
  "fst ` set (fold (add_results_file m) fs cm) \<subseteq> insert ''results'' (fst ` set cm)"
proof (induction fs arbitrary: cm)
  case Nil
  then show ?case by (simp add: subset_insertI)
next
  case (Cons f fs)
  show ?case using Cons [of "add_results_file m f cm"] keys_add_results_file [of m f cm]
    by auto
qed

lemma keys_fold_samples:
  "fst ` set (fold (add_sample_file latest) fs cm) \<subseteq>
     fst ` set cm \<union> file_config ` set fs \<union> set SPECIAL_TASKS"
proof (induction fs arbitrary: cm)
  case Nil
  then show ?case by simp
next
  case (Cons f fs)
  show ?case using Cons [of "add_sample_file latest f cm"] keys_add_sample_file [of latest f cm]
    by auto
qed

lemma distinct_keys_build:
  "distinct (map fst (build_card_metadata m latest rfiles sfiles))"
proof -
  have a: "distinct (map fst cm) \<Longrightarrow> distinct (map fst (fold (add_results_file m) fs cm))" for fs cm
    by (induction fs arbitrary: cm) (simp_all add: distinct_keys_add_results_file)
  have b: "distinct (map fst cm) \<Longrightarrow> distinct (map fst (fold (add_sample_file latest) fs cm))" for fs cm
    by (induction fs arbitrary: cm) (simp_all add: distinct_keys_add_sample_file)
  show ?thesis by (simp add: build_card_metadata_def a b)
qed

lemma keys_build:
  "fst ` set (build_card_metadata m latest rfiles sfiles) \<subseteq>
     {''results''} \<union> file_config ` set sfiles \<union> set SPECIAL_TASKS"
proof -
  have "fst ` set (fold (add_results_file m) rfiles []) \<subseteq> {''results''}"
    using keys_fold_results [of m rfiles "[]"] by simp
  then show ?thesis
    unfolding build_card_metadata_def
    using keys_fold_samples [of latest sfiles "fold (add_results_file m) rfiles []"] by blast
qed

lemma config_of_entry:
  "distinct (map fst cm) \<Longrightarrow> (c, dfs) \<in> set cm \<Longrightarrow> dict_get cm c [] = dfs"
  by (simp add: dict_get_def)

lemma word_name_keys_build:
  assumes "(c, dfs) \<in> set (build_card_metadata m latest rfiles sfiles)"
  shows "word_name c"
proof -
  from assms have "c \<in> fst ` set (build_card_metadata m latest rfiles sfiles)"
    by force
  with keys_build have "c = ''results'' \<or> c \<in> file_config ` set sfiles \<or> c \<in> set SPECIAL_TASKS"
    by blast
  moreover have "word_name x" if "x \<in> set SPECIAL_TASKS" for x
    using that word_name_reserved(2) by (simp add: list_all_iff)
  moreover have "word_name x" if "x \<in> file_config ` set sfiles" for x
    using that by (auto simp: file_config_def word_name_sanitize_task)
  ultimately show ?thesis
    using word_name_reserved(1) by blast
qed

lemma fst_sample_pairs:
  "n \<in> fst ` sample_pairs latest c f \<Longrightarrow> n = file_split f \<or> n = ''latest''"
  by (auto simp: sample_pairs_def split: if_splits)

lemma fst_results_pairs:
  "n \<in> fst ` results_pairs m c f \<Longrightarrow> n = file_split f \<or> n = ''latest''"
  by (auto simp: results_pairs_def split: if_splits)

lemma split_names_build:
  assumes "d \<in> set (dict_get (build_card_metadata m latest rfiles sfiles) c [])"
  shows "split_name_ok (split d)"
proof -
  from assms have "split d \<in> split ` set (dict_get (build_card_metadata m latest rfiles sfiles) c [])"
    by blast
  then have "(\<exists>f. split d \<in> fst ` results_pairs m c f) \<or> (\<exists>f. split d \<in> fst ` sample_pairs latest c f)"
    unfolding dict_get_build names_fold_samples names_fold_results by simp blast
  then have "split d = ''latest'' \<or> (\<exists>f. split d = file_split f)"
    using fst_sample_pairs fst_results_pairs by blast
  moreover have "split_name_ok (file_split f)" for f
    by (simp add: file_split_def split_name_ok_sanitize_date)
  ultimately show ?thesis
    using word_name_reserved(3) by metis
qed

lemma file_path_inj:
  "file_path f = file_path g \<Longrightarrow> file_config f = file_config g \<and> file_split f = file_split g"
  by (simp add: file_path_def join_glob_def file_config_def file_task_def file_split_def
      file_date_def)

lemma snd_sample_pairs: "(n, p) \<in> sample_pairs latest c f \<Longrightarrow> p = file_path f"
  by (auto simp: sample_pairs_def split: if_splits)

lemma snd_results_pairs: "(n, p) \<in> results_pairs m c f \<Longrightarrow> p = file_path f"
  by (auto simp: results_pairs_def split: if_splits)

lemma unique_splits_Nil: "unique_splits []"
  by (simp add: unique_splits_def)

lemma unique_splits_append:
  "unique_splits dfs \<Longrightarrow> n \<notin> split ` set dfs \<Longrightarrow>
   unique_splits (dfs @ [\<lparr>split = n, path = [p]\<rparr>])"
  by (simp add: unique_splits_def)

lemma paths_distinct_upsert:
  "list_all (\<lambda>d. distinct (path d)) dfs \<Longrightarrow> (n, p) \<notin> members dfs \<Longrightarrow>
   list_all (\<lambda>d. distinct (path d)) (upsert_split n p dfs)"
  by (induction dfs) auto

lemma unique_splits_upsert:
  "unique_splits dfs \<Longrightarrow> (n, p) \<notin> members dfs \<Longrightarrow> unique_splits (upsert_split n p dfs)"
  by (simp add: unique_splits_def distinct_split_names_upsert paths_distinct_upsert)

lemma unique_splits_composite:
  assumes "unique_splits dfs" "(eds, rf) \<notin> members dfs" "(''latest'', rf) \<notin> members dfs"
    "eds \<noteq> ''latest''"
  shows "unique_splits (composite_update eds sl rf dfs)"
proof -
  have a: "unique_splits (upsert_split eds rf dfs)"
    using assms(1,2) by (rule unique_splits_upsert)
  have "(''latest'', rf) \<notin> members (upsert_split eds rf dfs)"
    using assms(3,4) by simp
  with a have "unique_splits (upsert_split ''latest'' rf (upsert_split eds rf dfs))"
    by (rule unique_splits_upsert)
  with a show ?thesis by (cases "eds = sl") (simp_all add: composite_update_def Let_def)
qed

lemma unique_splits_config_after_sample:
  assumes u: "unique_splits dfs"
    and ns: "file_config f \<notin> set SPECIAL_TASKS"
    and nl: "file_split f \<noteq> ''latest''"
    and a1: "c = file_config f \<Longrightarrow> file_split f \<notin> split ` set dfs"
    and a2: "c = file_config f \<Longrightarrow> is_latest_sample latest f \<Longrightarrow> ''latest'' \<notin> split ` set dfs"
    and a3: "(file_split f, file_path f) \<notin> members dfs"
    and a4: "(''latest'', file_path f) \<notin> members dfs"
  shows "unique_splits (config_after_sample latest c f dfs)"
proof (cases "c = file_config f")
  case True
  let ?e = "\<lparr>split = file_split f, path = [file_path f]\<rparr>"
  have e: "unique_splits (dfs @ [?e])"
    using u a1 [OF True] by (rule unique_splits_append)
  have "unique_splits ((dfs @ [?e]) @ [\<lparr>split = ''latest'', path = [file_path f]\<rparr>])"
    if "is_latest_sample latest f"
    using unique_splits_append [OF e, of "''latest''" "file_path f"] a2 [OF True that] nl
    by auto
  with e True ns show ?thesis
    by (simp add: config_after_sample_def Let_def is_latest_sample_def)
next
  case False
  show ?thesis
    using False u a3 a4 nl
    by (simp add: config_after_sample_def Let_def unique_splits_composite)
qed

lemma unique_splits_config_after_results:
  assumes u: "unique_splits dfs"
    and nl: "file_split f \<noteq> ''latest''"
    and a1: "file_split f \<notin> split ` set dfs"
    and a2: "file_split f = sanitize_date m \<Longrightarrow> ''latest'' \<notin> split ` set dfs"
  shows "unique_splits (config_after_results m c f dfs)"
proof -
  let ?e = "\<lparr>split = file_split f, path = [file_path f]\<rparr>"
  have e: "unique_splits (dfs @ [?e])"
    using u a1 by (rule unique_splits_append)
  have "unique_splits ((dfs @ [?e]) @ [\<lparr>split = ''latest'', path = [file_path f]\<rparr>])"
    if "file_split f = sanitize_date m"
    using unique_splits_append [OF e, of "''latest''" "file_path f"] a2 [OF that] nl
    by auto
  with e u show ?thesis
    by (simp add: config_after_results_def)
qed

lemma unique_splits_fold_samples:
  assumes "distinct (map (\<lambda>f. (file_config f, file_split f)) fs)"
    and "\<forall>f\<in>set fs. \<forall>g\<in>set fs. file_config f = file_config g \<longrightarrow> file_task f = file_task g"
    and "\<forall>f\<in>set fs. file_split f \<noteq> ''latest''"
    and "\<forall>f\<in>set fs. file_config f \<notin> set SPECIAL_TASKS"
  shows "unique_splits (fold (config_after_sample latest c) fs [])"
  using assms
proof (induction fs rule: rev_induct)
  case Nil
  then show ?case by (simp add: unique_splits_Nil)
next
  case (snoc x xs)
  let ?E = "fold (config_after_sample latest c) xs []"
  have p1: "distinct (map (\<lambda>f. (file_config f, file_split f)) xs)"
    using snoc.prems(1) by simp
  have sub: "g \<in> set (xs @ [x])" if "g \<in> set xs" for g
    using that by simp
  have last: "x \<in> set (xs @ [x])"
    by simp
  have p2: "\<forall>f\<in>set xs. \<forall>g\<in>set xs. file_config f = file_config g \<longrightarrow> file_task f = file_task g"
    using snoc.prems(2) sub by blast
  have p3: "\<forall>f\<in>set xs. file_split f \<noteq> ''latest''"
    using snoc.prems(3) by simp
  have p4: "\<forall>f\<in>set xs. file_config f \<notin> set SPECIAL_TASKS"
    using snoc.prems(4) by simp
  have ih: "unique_splits ?E"
    by (rule snoc.IH [OF p1 p2 p3 p4])
  have names: "split ` set ?E = (\<Union>g\<in>set xs. fst ` sample_pairs latest c g)"
    by (simp add: names_fold_samples)
  have mem: "members ?E = (\<Union>g\<in>set xs. sample_pairs latest c g)"
    by (simp add: members_fold_samples)
  have "(file_config x, file_split x) \<notin> (\<lambda>f. (file_config f, file_split f)) ` set xs"
    using snoc.prems(1) by simp
  then have key: "file_config g = file_config x \<Longrightarrow> file_split g = file_split x \<Longrightarrow> False"
    if "g \<in> set xs" for g
    using that by (simp add: image_iff) metis
  have task: "file_task g = file_task x" if "g \<in> set xs" "file_config g = file_config x" for g
    using snoc.prems(2) sub [OF that(1)] last that(2) by blast
  have nlx: "file_split x \<noteq> ''latest''"
    using snoc.prems(3) by simp
  have ns: "file_config x \<notin> set SPECIAL_TASKS"
    using snoc.prems(4) by simp
  have a1: "file_split x \<notin> split ` set ?E" if c: "c = file_config x"
  proof
    assume "file_split x \<in> split ` set ?E"
    then obtain g where g: "g \<in> set xs" "file_split x \<in> fst ` sample_pairs latest c g"
      unfolding names by blast
    from g(2) have "in_config c g"
      by (cases "in_config c g") (simp_all add: sample_pairs_def)
    with c ns have cg: "file_config g = file_config x"
      by (auto simp: in_config_def)
    from g(2) have "file_split x = file_split g \<or> file_split x = ''latest''"
      by (rule fst_sample_pairs)
    with nlx have "file_split g = file_split x" by simp
    with key [OF g(1) cg] show False .
  qed
  have a2: "''latest'' \<notin> split ` set ?E" if c: "c = file_config x" and l: "is_latest_sample latest x"
  proof
    assume "''latest'' \<in> split ` set ?E"
    then obtain g where g: "g \<in> set xs" "''latest'' \<in> fst ` sample_pairs latest c g"
      unfolding names by blast
    from g(2) obtain p where p: "(''latest'', p) \<in> sample_pairs latest c g"
      by force
    then have ig: "in_config c g" and "is_latest_sample latest g \<or> file_split g = ''latest''"
      unfolding latest_in_sample_pairs by simp_all
    with p3 g(1) have lg: "is_latest_sample latest g"
      by blast
    from ig c ns have cg: "file_config g = file_config x"
      by (auto simp: in_config_def)
    from task [OF g(1) cg] lg l have "file_split g = file_split x"
      by (simp add: is_latest_sample_def)
    with key [OF g(1) cg] show False .
  qed
  have a3: "(n, file_path x) \<notin> members ?E" for n
  proof
    assume "(n, file_path x) \<in> members ?E"
    then obtain g where g: "g \<in> set xs" "(n, file_path x) \<in> sample_pairs latest c g"
      unfolding mem by blast
    from g(2) have "file_path x = file_path g"
      by (rule snd_sample_pairs)
    from file_path_inj [OF this] key [OF g(1)] show False by simp
  qed
  have "unique_splits (config_after_sample latest c x ?E)"
    by (rule unique_splits_config_after_sample [OF ih ns nlx a1 a2 a3 a3])
  then show ?case by simp
qed

lemma unique_splits_fold_results:
  assumes "distinct (map file_split fs)" and "\<forall>f\<in>set fs. file_split f \<noteq> ''latest''"
  shows "unique_splits (fold (config_after_results m c) fs [])"
  using assms
proof (induction fs rule: rev_induct)
  case Nil
  then show ?case by (simp add: unique_splits_Nil)
next
  case (snoc x xs)
  let ?E = "fold (config_after_results m c) xs []"
  have p1: "distinct (map file_split xs)"
    using snoc.prems(1) by simp
  have p2: "\<forall>f\<in>set xs. file_split f \<noteq> ''latest''"
    using snoc.prems(2) by simp
  have ih: "unique_splits ?E"
    by (rule snoc.IH [OF p1 p2])
  have names: "split ` set ?E = (\<Union>g\<in>set xs. fst ` results_pairs m c g)"
    by (simp add: names_fold_results)
  have "file_split x \<notin> file_split ` set xs"
    using snoc.prems(1) by simp
  then have key: "file_split g = file_split x \<Longrightarrow> False" if "g \<in> set xs" for g
    using that by (simp add: image_iff) metis
  have nlx: "file_split x \<noteq> ''latest''"
    using snoc.prems(2) by simp
  have a1: "file_split x \<notin> split ` set ?E"
  proof
    assume "file_split x \<in> split ` set ?E"
    then obtain g where g: "g \<in> set xs" "file_split x \<in> fst ` results_pairs m c g"
      unfolding names by blast
    from g(2) have "file_split x = file_split g \<or> file_split x = ''latest''"
      by (rule fst_results_pairs)
    with nlx have "file_split g = file_split x" by simp
    with key [OF g(1)] show False .
  qed
  have a2: "''latest'' \<notin> split ` set ?E" if l: "file_split x = sanitize_date m"
  proof
    assume "''latest'' \<in> split ` set ?E"
    then obtain g where g: "g \<in> set xs" "''latest'' \<in> fst ` results_pairs m c g"
      unfolding names by blast
    from g(2) obtain p where "(''latest'', p) \<in> results_pairs m c g"
      by force
    then have "file_split g = sanitize_date m \<or> file_split g = ''latest''"
      unfolding latest_in_results_pairs by simp
    with p2 g(1) l have "file_split g = file_split x" by auto
    with key [OF g(1)] show False .
  qed
  have "unique_splits (config_after_results m c x ?E)"
    by (rule unique_splits_config_after_results [OF ih nlx a1 a2])
  then show ?case by simp
qed

lemma config_after_sample_untouched:
  "\<not> in_config c f \<Longrightarrow> config_after_sample latest c f dfs = dfs"
  by (auto simp: config_after_sample_def in_config_def Let_def)

lemma fold_config_after_sample_untouched:
  "\<forall>f\<in>set fs. \<not> in_config c f \<Longrightarrow> fold (config_after_sample latest c) fs dfs = dfs"
  by (induction fs) (simp_all add: config_after_sample_untouched)

lemma collision_freeD:
  assumes "collision_free files"
  shows "distinct (map (\<lambda>f. (file_config f, file_split f)) (sample_files files))"
    and "\<forall>f\<in>set (sample_files files). \<forall>g\<in>set (sample_files files).
           file_config f = file_config g \<longrightarrow> file_task f = file_task g"
    and "distinct (map file_split (results_files files))"
    and "\<forall>f\<in>set (sample_files files). file_split f \<noteq> ''latest''"
    and "\<forall>f\<in>set (results_files files). file_split f \<noteq> ''latest''"
    and "\<forall>f\<in>set (sample_files files). file_config f \<noteq> ''results''"
    and "\<forall>f\<in>set (sample_files files). file_config f \<notin> set SPECIAL_TASKS"
proof -
  from assms have
    a: "distinct (map (\<lambda>f. (file_config f, file_split f)) (sample_files files))"
    and b: "\<forall>f\<in>set (sample_files files). \<forall>g\<in>set (sample_files files).
           file_config f = file_config g \<longrightarrow> file_task f = file_task g"
    and c: "distinct (map file_split (results_files files))"
    and d: "\<forall>f\<in>set (sample_files files @ results_files files). file_split f \<noteq> ''latest''"
    and e: "\<forall>f\<in>set (sample_files files).
           file_config f \<noteq> ''results'' \<and> file_config f \<notin> set SPECIAL_TASKS"
    unfolding collision_free_def Let_def by blast+
  show "distinct (map (\<lambda>f. (file_config f, file_split f)) (sample_files files))" by (fact a)
  show "\<forall>f\<in>set (sample_files files). \<forall>g\<in>set (sample_files files).
           file_config f = file_config g \<longrightarrow> file_task f = file_task g" by (fact b)
  show "distinct (map file_split (results_files files))" by (fact c)
  show "\<forall>f\<in>set (sample_files files). file_split f \<noteq> ''latest''" using d by simp
  show "\<forall>f\<in>set (results_files files). file_split f \<noteq> ''latest''" using d by simp
  show "\<forall>f\<in>set (sample_files files). file_config f \<noteq> ''results''" using e by blast
  show "\<forall>f\<in>set (sample_files files). file_config f \<notin> set SPECIAL_TASKS" using e by blast
qed

lemma unique_splits_catalog:
  assumes cb: "catalog_builder files = Inr (m, cm)" and cf: "collision_free files"
  shows "unique_splits (dict_get cm c [])"
proof (cases "c = ''results''")
  case True
  have "\<not> in_config c f" if "f \<in> set (sample_files files)" for f
    using collision_freeD(6) [OF cf] that True results_not_special
    by (auto simp: in_config_def)
  then have "\<forall>f\<in>set (sample_files files). \<not> in_config c f"
    by blast
  then have "dict_get cm c [] = fold (config_after_results m c) (results_files files) []"
    unfolding catalog_builder_Inr(2) [OF cb] dict_get_build
    by (rule fold_config_after_sample_untouched)
  moreover have "unique_splits (fold (config_after_results m c) (results_files files) [])"
    by (rule unique_splits_fold_results [OF collision_freeD(3) [OF cf] collision_freeD(5) [OF cf]])
  ultimately show ?thesis by simp
next
  case False
  then have "dict_get cm c [] =
      fold (config_after_sample (latest_task_results_datetime (sample_files files)) c)
        (sample_files files) []"
    unfolding catalog_builder_Inr(2) [OF cb] dict_get_build
    by (simp add: fold_config_after_results_other)
  moreover have "unique_splits (fold (config_after_sample
      (latest_task_results_datetime (sample_files files)) c) (sample_files files) [])"
    by (rule unique_splits_fold_samples [OF collision_freeD(1) [OF cf] collision_freeD(2) [OF cf]
          collision_freeD(4) [OF cf] collision_freeD(7) [OF cf]])
  ultimately show ?thesis by simp
qed

lemma catalog_entry:
  assumes cb: "catalog_builder files = Inr (m, cm)" and "(c, dfs) \<in> set cm"
  shows "dict_get cm c [] = dfs" and "word_name c"
proof -
  note eq = catalog_builder_Inr(2) [OF cb]
  have "distinct (map fst cm)"
    unfolding eq by (rule distinct_keys_build)
  then show "dict_get cm c [] = dfs"
    using assms(2) by (rule config_of_entry)
  show "word_name c"
    using assms(2) unfolding eq by (rule word_name_keys_build)
qed

lemma one_run_collision_free:
  "collision_free
     [''m/results_2024-01-01T00-00-00.json'', ''m/samples_gsm8k_2024-01-01T00-00-00.json'']"
  by code_simp

lemma collision_examples:
  "catalog_builder
     [''m/results_2024-05-01T12-34-56.789012.json'',
      ''m/samples_gsm8k_2024-05-01T12-34-56.789012.json''] =
   Inr (''2024-05-01T12-34-56.789012'',
     [(''results'',
       [\<lparr>split = ''2024_05_01T12_34_56.789012'',
          path = [''**/results_2024-05-01T12-34-56.789012.json'']\<rparr>,
        \<lparr>split = ''latest'', path = [''**/results_2024-05-01T12-34-56.789012.json'']\<rparr>]),
      (''gsm8k'',
       [\<lparr>split = ''2024_05_01T12_34_56.789012'',
          path = [''**/samples_gsm8k_2024-05-01T12-34-56.789012.json'']\<rparr>,
        \<lparr>split = ''latest'',
          path = [''**/samples_gsm8k_2024-05-01T12-34-56.789012.json'']\<rparr>])])"
  "\<not> word_name ''2024_05_01T12_34_56.789012''"
  "\<not> is_word_char CHR ''.''"
  "catalog_builder
     [''a/samples_mmlu_x_2024-01-01T00-00-00.json'',
      ''b/samples_mmlu_x_2024-01-01T00-00-00.json''] =
   Inr (''2024-01-01T00-00-00'',
     [(''mmlu_x'',
       [\<lparr>split = ''2024_01_01T00_00_00'',
          path = [''**/samples_mmlu_x_2024-01-01T00-00-00.json'']\<rparr>,
        \<lparr>split = ''latest'', path = [''**/samples_mmlu_x_2024-01-01T00-00-00.json'']\<rparr>,
        \<lparr>split = ''2024_01_01T00_00_00'',
          path = [''**/samples_mmlu_x_2024-01-01T00-00-00.json'']\<rparr>,
        \<lparr>split = ''latest'', path = [''**/samples_mmlu_x_2024-01-01T00-00-00.json'']\<rparr>]),
      (''mmlu_'',
       [\<lparr>split = ''2024_01_01T00_00_00'',
          path = [''**/samples_mmlu_x_2024-01-01T00-00-00.json'',
                  ''**/samples_mmlu_x_2024-01-01T00-00-00.json'']\<rparr>,
        \<lparr>split = ''latest'',
          path = [''**/samples_mmlu_x_2024-01-01T00-00-00.json'',
                  ''**/samples_mmlu_x_2024-01-01T00-00-00.json'']\<rparr>])])"
  by code_simp+

text \<open>
  C2, as stated, fails. The time stamp of a run has a fraction of a second after a dot,
  and the pattern that sanitizes time stamps keeps dots: the split name below holds a
  dot, which is not a word character. And nothing merges the entries of two files with
  one base name in two directories: the task's configuration gets two splits of one
  name (and two named \<^verbatim>\<open>"latest"\<close>), and in the configuration of the special task
  the path is twice in one split.
\<close>

theorem catalog_uniqueness_counterexample:
  "catalog_builder
     [''m/results_2024-05-01T12-34-56.789012.json'',
      ''m/samples_gsm8k_2024-05-01T12-34-56.789012.json''] =
   Inr (''2024-05-01T12-34-56.789012'',
     [(''results'',
       [\<lparr>split = ''2024_05_01T12_34_56.789012'',
          path = [''**/results_2024-05-01T12-34-56.789012.json'']\<rparr>,
        \<lparr>split = ''latest'', path = [''**/results_2024-05-01T12-34-56.789012.json'']\<rparr>]),
      (''gsm8k'',
       [\<lparr>split = ''2024_05_01T12_34_56.789012'',
          path = [''**/samples_gsm8k_2024-05-01T12-34-56.789012.json'']\<rparr>,
        \<lparr>split = ''latest'',
          path = [''**/samples_gsm8k_2024-05-01T12-34-56.789012.json'']\<rparr>])]) \<and>
   \<not> is_word_char CHR ''.'' \<and>
   catalog_builder
     [''a/samples_mmlu_x_2024-01-01T00-00-00.json'',
      ''b/samples_mmlu_x_2024-01-01T00-00-00.json''] =
   Inr (''2024-01-01T00-00-00'',
     [(''mmlu_x'',
       [\<lparr>split = ''2024_01_01T00_00_00'',
          path = [''**/samples_mmlu_x_2024-01-01T00-00-00.json'']\<rparr>,
        \<lparr>split = ''latest'', path = [''**/samples_mmlu_x_2024-01-01T00-00-00.json'']\<rparr>,
        \<lparr>split = ''2024_01_01T00_00_00'',
          path = [''**/samples_mmlu_x_2024-01-01T00-00-00.json'']\<rparr>,
        \<lparr>split = ''latest'', path = [''**/samples_mmlu_x_2024-01-01T00-00-00.json'']\<rparr>]),
      (''mmlu_'',
       [\<lparr>split = ''2024_01_01T00_00_00'',
          path = [''**/samples_mmlu_x_2024-01-01T00-00-00.json'',
                  ''**/samples_mmlu_x_2024-01-01T00-00-00.json'']\<rparr>,
        \<lparr>split = ''latest'',
          path = [''**/samples_mmlu_x_2024-01-01T00-00-00.json'',
                  ''**/samples_mmlu_x_2024-01-01T00-00-00.json'']\<rparr>])])"
  by (simp add: collision_examples)

text \<open>
  Each condition of a listing without collisions is needed. In each of the five
  listings below one condition fails and some configuration has two splits of one name
  or a split with one path twice: two tasks sanitized to one name; two results files of
  one time stamp; a time stamp that is the word \<^verbatim>\<open>latest\<close>; a task named
  \<^verbatim>\<open>results\<close>; a task whose name is that of a special task.
\<close>

lemma collision_conditions_needed:
  "map_sum id (\<lambda>(m, cm). list_all (\<lambda>(c, dfs). unique_splits dfs) cm)
     (catalog_builder
       [''m/samples_a-b_2024-01-01T00-00-00.json'', ''m/samples_a_b_2024-02-01T00-00-00.json''])
   = Inr False"
  "map_sum id (\<lambda>(m, cm). list_all (\<lambda>(c, dfs). unique_splits dfs) cm)
     (catalog_builder
       [''a/results_2024-01-01T00-00-00.json'', ''b/results_2024-01-01T00-00-00.json'',
        ''a/samples_gsm8k_2024-01-01T00-00-00.json''])
   = Inr False"
  "map_sum id (\<lambda>(m, cm). list_all (\<lambda>(c, dfs). unique_splits dfs) cm)
     (catalog_builder [''m/samples_gsm8k_latest.json''])
   = Inr False"
  "map_sum id (\<lambda>(m, cm). list_all (\<lambda>(c, dfs). unique_splits dfs) cm)
     (catalog_builder
       [''m/results_2024-01-01T00-00-00.json'', ''m/samples_results_2024-01-01T00-00-00.json''])
   = Inr False"
  "map_sum id (\<lambda>(m, cm). list_all (\<lambda>(c, dfs). unique_splits dfs) cm)
     (catalog_builder [''m/samples_mmlu__2024-01-01T00-00-00.json''])
   = Inr False"
  by code_simp+

text \<open>
  C2, amended. In every catalog the names of the configurations are distinct and made
  of word characters, and the names of the splits are made of word characters and
  dots. For a listing without collisions, no configuration has two splits of one name
  and no split lists a path twice. Every call starts from an empty catalog, so what
  an earlier call built plays no part.
\<close>

theorem catalog_names_and_uniqueness:
  assumes "catalog_builder files_in_repo = Inr (m, cm)"
  shows "distinct (map fst cm) \<and>
     (\<forall>(c, data_files) \<in> set cm.
        word_name c \<and> list_all (\<lambda>d. split_name_ok (split d)) data_files \<and>
        (collision_free files_in_repo \<longrightarrow> unique_splits data_files))"
proof -
  note eq = catalog_builder_Inr(2) [OF assms]
  have "distinct (map fst cm)"
    unfolding eq by (rule distinct_keys_build)
  moreover have "word_name c \<and> list_all (\<lambda>d. split_name_ok (split d)) dfs \<and>
        (collision_free files_in_repo \<longrightarrow> unique_splits dfs)"
    if "(c, dfs) \<in> set cm" for c dfs
  proof -
    note e = catalog_entry [OF assms that]
    have "split_name_ok (split d)" if "d \<in> set dfs" for d
      using that split_names_build [of d m _ _ _ c] unfolding e(1) [symmetric] eq by blast
    then have "list_all (\<lambda>d. split_name_ok (split d)) dfs"
      by (simp add: list_all_iff)
    moreover have "unique_splits dfs" if "collision_free files_in_repo"
      using unique_splits_catalog [OF assms that, of c] by (simp add: e(1))
    ultimately show ?thesis using e(2) by blast
  qed
  ultimately show ?thesis by blast
qed

theorem catalog_names_and_uniqueness_witness:
  "unique_splits
     [\<lparr>split = ''2024_01_01T00_00_00'', path = [''**/samples_gsm8k_2024-01-01T00-00-00.json'']\<rparr>,
      \<lparr>split = ''latest'', path = [''**/samples_gsm8k_2024-01-01T00-00-00.json'']\<rparr>] \<and>
   word_name ''gsm8k''"
  using catalog_names_and_uniqueness [OF catalog_builder_one_run(1)] one_run_collision_free
  by simp

section \<open>Rebuilding the catalog\<close>

lemma keys_latest_step: "fst ` set (latest_step f d) = insert (file_task f) (fst ` set d)"
  by (simp add: latest_step_def Let_def dom_update file_task_def)

lemma keys_fold_latest_step:
  "fst ` set (fold latest_step fs d) = fst ` set d \<union> file_task ` set fs"
  by (induction fs arbitrary: d) (simp_all add: keys_latest_step Un_commute insert_commute)

lemma distinct_keys_latest_step:
  "distinct (map fst d) \<Longrightarrow> distinct (map fst (latest_step f d))"
  by (simp add: latest_step_def Let_def distinct_update)

lemma distinct_keys_fold_latest_step:
  "distinct (map fst d) \<Longrightarrow> distinct (map fst (fold latest_step fs d))"
  by (induction fs arbitrary: d) (simp_all add: distinct_keys_latest_step)

lemma values_of_dict:
  assumes "distinct (map fst d)"
  shows "snd ` set d = (\<lambda>k. dict_get d k dflt) ` (fst ` set d)"
proof (intro set_eqI iffI)
  fix v assume "v \<in> snd ` set d"
  then obtain k where kv: "(k, v) \<in> set d" by auto
  with assms have "map_of d k = Some v" by simp
  then have "dict_get d k dflt = v" by (simp add: dict_get_def)
  moreover from kv have "k \<in> fst ` set d" by force
  ultimately show "v \<in> (\<lambda>k. dict_get d k dflt) ` (fst ` set d)" by blast
next
  fix v assume "v \<in> (\<lambda>k. dict_get d k dflt) ` (fst ` set d)"
  then obtain k w where k: "(k, w) \<in> set d" and v: "v = dict_get d k dflt" by auto
  from k assms have "map_of d k = Some w" by simp
  with v have "v = w" by (simp add: dict_get_def)
  with k show "v \<in> snd ` set d" by force
qed

lemma latest_values:
  "snd ` set (latest_task_results_datetime (sample_files files)) =
     task_latest files ` file_task ` set (sample_files files)"
proof -
  have "distinct (map fst (latest_task_results_datetime (sample_files files)))"
    by (simp add: latest_task_results_datetime_def distinct_keys_fold_latest_step)
  from values_of_dict [OF this, of datetime_min] show ?thesis
    by (simp add: latest_task_results_datetime_def keys_fold_latest_step task_latest_def
        image_image)
qed

lemma max_latest_Max:
  "max_latest_task_results_datetime latest =
     (if latest = [] then Inl ValueError else Inr (Max (snd ` set latest)))"
proof (cases latest)
  case Nil
  then show ?thesis by (simp add: max_latest_task_results_datetime_def)
next
  case (Cons p ps)
  have "fold max (map snd ps) (snd p) = Max (set (snd p # map snd ps))"
    by (simp only: Max.set_eq_fold)
  with Cons show ?thesis by (simp add: max_latest_task_results_datetime_def)
qed

lemma sample_files_mset:
  "mset files' = mset files \<Longrightarrow> set (sample_files files') = set (sample_files files)"
  using mset_eq_setD [of files' files] by (simp add: sample_files_def)

lemma results_files_mset:
  "mset files' = mset files \<Longrightarrow> set (results_files files') = set (results_files files)"
  using mset_eq_setD [of files' files] by (simp add: results_files_def)

lemma latest_not_Nil:
  "latest_task_results_datetime (sample_files files) = [] \<longleftrightarrow> sample_files files = []"
  using fold_latest_step_not_Nil [of "sample_files files" "[]"]
  by (auto simp: latest_task_results_datetime_def)

lemma max_latest_permute:
  assumes "mset files' = mset files"
  shows "max_latest_task_results_datetime (latest_task_results_datetime (sample_files files')) =
         max_latest_task_results_datetime (latest_task_results_datetime (sample_files files))"
proof -
  note s = sample_files_mset [OF assms]
  have t: "task_latest files' = task_latest files"
    using task_latest_permute [OF assms] by (rule ext)
  have e: "sample_files files' = [] \<longleftrightarrow> sample_files files = []"
    using s set_empty [of "sample_files files'"] set_empty [of "sample_files files"] by simp
  show ?thesis
    unfolding max_latest_Max latest_not_Nil latest_values s t e ..
qed

lemma sample_pairs_cong:
  assumes "dict_get latest' (file_task f) datetime_min = dict_get latest (file_task f) datetime_min"
  shows "sample_pairs latest' c f = sample_pairs latest c f"
  using assms by (simp add: sample_pairs_def is_latest_sample_def)

lemma catalog_members_permute:
  assumes p: "mset files' = mset files"
    and cb: "catalog_builder files = Inr (m, cm)"
  shows "\<exists>cm'. catalog_builder files' = Inr (m, cm') \<and>
           (\<forall>c. members (dict_get cm' c []) = members (dict_get cm c []))"
proof -
  note s = sample_files_mset [OF p] and r = results_files_mset [OF p]
  have m: "max_latest_task_results_datetime (latest_task_results_datetime (sample_files files))
      = Inr m"
    using cb by (auto simp: catalog_builder_def Let_def split: sum.splits)
  then have m': "max_latest_task_results_datetime
      (latest_task_results_datetime (sample_files files')) = Inr m"
    using max_latest_permute [OF p] by simp
  define cm' where "cm' = build_card_metadata m (latest_task_results_datetime (sample_files files'))
      (results_files files') (sample_files files')"
  have cb': "catalog_builder files' = Inr (m, cm')"
    using m' by (simp add: catalog_builder_def Let_def cm'_def)
  have l: "dict_get (latest_task_results_datetime (sample_files files')) t datetime_min =
      dict_get (latest_task_results_datetime (sample_files files)) t datetime_min" for t
    using task_latest_permute [OF p, of t] by (simp add: task_latest_def)
  have "members (dict_get cm' c []) = members (dict_get cm c [])" for c
    unfolding members_catalog [OF cb] members_catalog [OF cb'] s r
    using sample_pairs_cong [OF l] by simp
  with cb' show ?thesis by blast
qed

lemma keys_fold_special_eq:
  "fst ` set (fold (special_step tns eds sl rf) sts cm) =
     fst ` set cm \<union> {st \<in> set sts. py_in st tns}"
proof (induction sts arbitrary: cm)
  case Nil
  then show ?case by simp
next
  case (Cons st sts)
  have "fst ` set (fold (special_step tns eds sl rf) (st # sts) cm) =
      fst ` set (special_step tns eds sl rf st cm) \<union> {st \<in> set sts. py_in st tns}"
    using Cons [of "special_step tns eds sl rf st cm"] by simp
  also have "\<dots> = fst ` set cm \<union> {s \<in> set (st # sts). py_in s tns}"
    unfolding keys_special_step by auto
  finally show ?case .
qed

lemma keys_add_sample_file_eq:
  "fst ` set (add_sample_file latest f cm) = fst ` set cm \<union> {c. in_config c f}"
proof -
  have "fst ` set (add_sample_file latest f cm) =
      insert (file_config f) (fst ` set cm) \<union> {st \<in> set SPECIAL_TASKS. py_in st (file_config f)}"
    unfolding add_sample_file_def Let_def keys_fold_special_eq file_config_def file_task_def
    by (simp add: keys_append_data_file)
  also have "\<dots> = fst ` set cm \<union> {c. in_config c f}"
    unfolding in_config_def by blast
  finally show ?thesis .
qed

lemma keys_add_results_file_eq:
  "fst ` set (add_results_file m f cm) = insert ''results'' (fst ` set cm)"
  by (simp add: add_results_file_def Let_def keys_append_data_file)

lemma keys_fold_results_eq:
  "fst ` set (fold (add_results_file m) fs cm) =
     fst ` set cm \<union> (if fs = [] then {} else {''results''})"
  by (induction fs arbitrary: cm) (simp_all add: keys_add_results_file_eq)

lemma keys_fold_samples_eq:
  "fst ` set (fold (add_sample_file latest) fs cm) =
     fst ` set cm \<union> {c. \<exists>f\<in>set fs. in_config c f}"
proof (induction fs arbitrary: cm)
  case Nil
  then show ?case by simp
next
  case (Cons f fs)
  have "fst ` set (fold (add_sample_file latest) (f # fs) cm) =
      (fst ` set cm \<union> {c. in_config c f}) \<union> {c. \<exists>g\<in>set fs. in_config c g}"
    using Cons [of "add_sample_file latest f cm"] by (simp add: keys_add_sample_file_eq)
  also have "\<dots> = fst ` set cm \<union> {c. \<exists>g\<in>set (f # fs). in_config c g}"
    by auto
  finally show ?case .
qed

lemma keys_build_eq:
  "fst ` set (build_card_metadata m latest rfiles sfiles) =
     (if set rfiles = {} then {} else {''results''}) \<union> {c. \<exists>f\<in>set sfiles. in_config c f}"
  by (simp add: build_card_metadata_def keys_fold_samples_eq keys_fold_results_eq)

lemma catalog_keys_permute:
  assumes p: "mset files' = mset files"
    and cb: "catalog_builder files = Inr (m, cm)"
    and cb': "catalog_builder files' = Inr (m', cm')"
  shows "fst ` set cm' = fst ` set cm"
  unfolding catalog_builder_Inr(2) [OF cb] catalog_builder_Inr(2) [OF cb'] keys_build_eq
    sample_files_mset [OF p] results_files_mset [OF p] ..

text \<open>
  C5. Building is a function of the listing: a second call on the same listing,
  whatever the tracker and whatever the remote files hold by then, gives the same
  configurations with the same splits and the same paths in the same order (or the same
  exception), and the tracker is the one the first call was given. The order of the
  listing plays no part in the membership either: for a listing with the same files in
  another order, the builder fails or succeeds alike, and on success the global latest
  time stamp, the names of the configurations, and for every configuration the pairs of
  a split name and a path under it are the same.
\<close>

theorem catalog_build_idempotent:
  "(let (r1, self1) = recreate_metadata_card hub_url results_string self files_in_repo;
        (r2, self2) = recreate_metadata_card hub_url' results_string' self1 files_in_repo
    in map_sum id card_configs r1 = map_sum id card_configs r2 \<and> self1 = self \<and> self2 = self) \<and>
   (mset files' = mset files_in_repo \<longrightarrow>
      (catalog_builder files_in_repo = Inl ValueError \<and> catalog_builder files' = Inl ValueError) \<or>
      (\<exists>m cm cm'. catalog_builder files_in_repo = Inr (m, cm) \<and>
          catalog_builder files' = Inr (m, cm') \<and> fst ` set cm' = fst ` set cm \<and>
          (\<forall>c. members (dict_get cm' c []) = members (dict_get cm c []))))"
proof (intro conjI impI)
  show "(let (r1, self1) = recreate_metadata_card hub_url results_string self files_in_repo;
        (r2, self2) = recreate_metadata_card hub_url' results_string' self1 files_in_repo
    in map_sum id card_configs r1 = map_sum id card_configs r2 \<and> self1 = self \<and> self2 = self)"
    by (simp add: recreate_metadata_card_def Let_def split: sum.splits prod.splits)
next
  assume p: "mset files' = mset files_in_repo"
  show "(catalog_builder files_in_repo = Inl ValueError \<and> catalog_builder files' = Inl ValueError) \<or>
      (\<exists>m cm cm'. catalog_builder files_in_repo = Inr (m, cm) \<and>
          catalog_builder files' = Inr (m, cm') \<and> fst ` set cm' = fst ` set cm \<and>
          (\<forall>c. members (dict_get cm' c []) = members (dict_get cm c [])))"
  proof (cases "sample_files files_in_repo = []")
    case True
    moreover from True sample_files_mset [OF p] have "sample_files files' = []"
      by simp
    ultimately show ?thesis by (simp add: catalog_builder_cases)
  next
    case False
    then obtain m cm where cb: "catalog_builder files_in_repo = Inr (m, cm)"
      using catalog_builder_succeeds by blast
    from catalog_members_permute [OF p cb] obtain cm' where
      cb': "catalog_builder files' = Inr (m, cm')"
      and mem: "\<forall>c. members (dict_get cm' c []) = members (dict_get cm c [])"
      by (elim exE conjE) (rule that)
    from catalog_keys_permute [OF p cb cb'] cb cb' mem show ?thesis by blast
  qed
qed

theorem catalog_build_idempotent_witness:
  "fst ` set (snd (projr (catalog_builder
      [''m/samples_gsm8k_2024-02-01T00-00-00.json'', ''m/results_2024-02-01T00-00-00.json'',
       ''m/samples_gsm8k_2024-01-01T00-00-00.json'']))) = {''results'', ''gsm8k''} \<and>
   members (dict_get (snd (projr (catalog_builder
      [''m/samples_gsm8k_2024-02-01T00-00-00.json'', ''m/results_2024-02-01T00-00-00.json'',
       ''m/samples_gsm8k_2024-01-01T00-00-00.json'']))) ''gsm8k'' []) =
     {(''2024_01_01T00_00_00'', ''**/samples_gsm8k_2024-01-01T00-00-00.json''),
      (''2024_02_01T00_00_00'', ''**/samples_gsm8k_2024-02-01T00-00-00.json''),
      (''latest'', ''**/samples_gsm8k_2024-02-01T00-00-00.json'')}"
proof -
  let ?G = "[''m/results_2024-02-01T00-00-00.json'', ''m/samples_gsm8k_2024-01-01T00-00-00.json'',
      ''m/samples_gsm8k_2024-02-01T00-00-00.json'']"
  let ?G' = "[''m/samples_gsm8k_2024-02-01T00-00-00.json'', ''m/results_2024-02-01T00-00-00.json'',
      ''m/samples_gsm8k_2024-01-01T00-00-00.json'']"
  let ?cm = "[(''results'',
       [\<lparr>split = ''2024_02_01T00_00_00'', path = [''**/results_2024-02-01T00-00-00.json'']\<rparr>,
        \<lparr>split = ''latest'', path = [''**/results_2024-02-01T00-00-00.json'']\<rparr>]),
      (''gsm8k'',
       [\<lparr>split = ''2024_01_01T00_00_00'',
          path = [''**/samples_gsm8k_2024-01-01T00-00-00.json'']\<rparr>,
        \<lparr>split = ''2024_02_01T00_00_00'',
          path = [''**/samples_gsm8k_2024-02-01T00-00-00.json'']\<rparr>,
        \<lparr>split = ''latest'', path = [''**/samples_gsm8k_2024-02-01T00-00-00.json'']\<rparr>])]"
  have p: "mset ?G' = mset ?G" by simp
  have g: "catalog_builder ?G = Inr (''2024-02-01T00-00-00'', ?cm)"
    by (rule two_runs_example(1))
  note d = catalog_build_idempotent [THEN conjunct2, THEN mp, OF p]
  with g obtain m cm' where g': "catalog_builder ?G' = Inr (m, cm')"
    and k: "fst ` set cm' = fst ` set ?cm"
    and mem: "\<forall>c. members (dict_get cm' c []) = members (dict_get ?cm c [])"
    by (elim disjE exE conjE) simp_all
  have "fst ` set ?cm = {''results'', ''gsm8k''}"
    by simp
  moreover have "members (dict_get ?cm ''gsm8k'' []) =
     {(''2024_01_01T00_00_00'', ''**/samples_gsm8k_2024-01-01T00-00-00.json''),
      (''2024_02_01T00_00_00'', ''**/samples_gsm8k_2024-02-01T00-00-00.json''),
      (''latest'', ''**/samples_gsm8k_2024-02-01T00-00-00.json'')}"
    by (simp add: dict_get_def insert_commute)
  ultimately show ?thesis
    using k mem by (simp add: g')
qed

end
